theory Spec2Isabelle
  imports Main "HOL-Library.Sublist"
begin

section \<open>JavaScript strings\<close>

text \<open>
  A JavaScript string is a sequence of UTF-16 code units. A code unit is modelled by its
  number; \<open>js\<close> turns an ASCII literal into such a sequence.
\<close>

type_synonym jschar = nat
type_synonym jsstring = "jschar list"

definition js :: "string \<Rightarrow> jsstring" where
  "js s = map of_char s"

text \<open>
  The characters that \<^verbatim>\<open>String.prototype.trim\<close> strips and that \<^verbatim>\<open>\s\<close> matches in a regular
  expression: ECMAScript's WhiteSpace and LineTerminator productions (TAB, LF, VT, FF, CR,
  SPACE, NBSP, U+1680, U+2000 to U+200A, U+2028, U+2029, U+202F, U+205F, U+3000, U+FEFF).
\<close>

definition is_whitespace :: "jschar \<Rightarrow> bool" where
  "is_whitespace c \<longleftrightarrow>
     (9 \<le> c \<and> c \<le> 13) \<or> c = 32 \<or> c = 160 \<or> c = 5760 \<or> (8192 \<le> c \<and> c \<le> 8202) \<or>
     c = 8232 \<or> c = 8233 \<or> c = 8239 \<or> c = 8287 \<or> c = 12288 \<or> c = 65279"

text \<open>\<^verbatim>\<open>s.trim()\<close>: leading and trailing whitespace removed.\<close>

definition trim :: "jsstring \<Rightarrow> jsstring" where
  "trim s = rev (dropWhile is_whitespace (rev (dropWhile is_whitespace s)))"

text \<open>
  \<^verbatim>\<open>s.replace(/\/+$/g, '')\<close>: the only match of \<^verbatim>\<open>\/+$\<close> is the maximal run of slashes
  (code unit 47) that ends the string; it is replaced by the empty string.
\<close>

definition strip_trailing_slashes :: "jsstring \<Rightarrow> jsstring" where
  "strip_trailing_slashes s = rev (dropWhile (\<lambda>c. c = 47) (rev s))"

text \<open>
  \<^verbatim>\<open>s.replace(/C+/g, r)\<close> for a character class \<open>C\<close>: scanning from the left, every maximal run
  of characters of the class is replaced by \<open>r\<close> (the quantifier is greedy and the search
  resumes after the match).
\<close>

function replace_runs :: "(jschar \<Rightarrow> bool) \<Rightarrow> jsstring \<Rightarrow> jsstring \<Rightarrow> jsstring" where
  "replace_runs C r [] = []"
| "replace_runs C r (c # cs) =
     (if C c then r @ replace_runs C r (dropWhile C cs) else c # replace_runs C r cs)"
  by pat_completeness auto
termination
  by (relation "measure (\<lambda>(C, r, s). length s)")
     (auto simp: le_imp_less_Suc length_dropWhile_le)

text \<open>\<^verbatim>\<open>s.replace(/^[._]/, '')\<close>: one leading \<^verbatim>\<open>.\<close> (46) or \<^verbatim>\<open>_\<close> (95) is removed.\<close>

fun strip_leading_dot_or_underscore :: "jsstring \<Rightarrow> jsstring" where
  "strip_leading_dot_or_underscore [] = []"
| "strip_leading_dot_or_underscore (c # cs) = (if c = 46 \<or> c = 95 then cs else c # cs)"

section \<open>Path and name utilities\<close>

text \<open>
  \<^verbatim>\<open>function formatTargetDir(targetDir) { return targetDir?.trim().replace(/\/+$/g, '') }\<close>

  The argument is a string or \<^verbatim>\<open>undefined\<close> (\<open>None\<close>); the optional chain returns
  \<^verbatim>\<open>undefined\<close> for \<^verbatim>\<open>undefined\<close>.
\<close>

definition formatTargetDir :: "jsstring option \<Rightarrow> jsstring option" where
  "formatTargetDir targetDir =
     (case targetDir of
        None \<Rightarrow> None
      | Some s \<Rightarrow> Some (strip_trailing_slashes (trim s)))"

text \<open>
  The character classes of the package-name expression
  \<^verbatim>\<open>/^(?:@[a-z\d\-*~][a-z\d\-*._~]*\/)?[a-z\d\-~][a-z\d\-._~]*$/\<close>.
  Code units: \<^verbatim>\<open>a-z\<close> 97 to 122, \<^verbatim>\<open>0-9\<close> 48 to 57, \<^verbatim>\<open>-\<close> 45, \<^verbatim>\<open>*\<close> 42, \<^verbatim>\<open>.\<close> 46,
  \<^verbatim>\<open>_\<close> 95, \<^verbatim>\<open>~\<close> 126, \<^verbatim>\<open>@\<close> 64, \<^verbatim>\<open>/\<close> 47.
\<close>

definition lower_or_digit :: "jschar \<Rightarrow> bool" where
  "lower_or_digit c \<longleftrightarrow> (97 \<le> c \<and> c \<le> 122) \<or> (48 \<le> c \<and> c \<le> 57)"

definition scope_first :: "jschar \<Rightarrow> bool" where
  "scope_first c \<longleftrightarrow> lower_or_digit c \<or> c = 45 \<or> c = 42 \<or> c = 126"

definition scope_rest :: "jschar \<Rightarrow> bool" where
  "scope_rest c \<longleftrightarrow> lower_or_digit c \<or> c = 45 \<or> c = 42 \<or> c = 46 \<or> c = 95 \<or> c = 126"

definition pkg_first :: "jschar \<Rightarrow> bool" where
  "pkg_first c \<longleftrightarrow> lower_or_digit c \<or> c = 45 \<or> c = 126"

definition pkg_rest :: "jschar \<Rightarrow> bool" where
  "pkg_rest c \<longleftrightarrow> lower_or_digit c \<or> c = 45 \<or> c = 46 \<or> c = 95 \<or> c = 126"

text \<open>\<^verbatim>\<open>@[a-z\d\-*~][a-z\d\-*._~]*\/\<close> matches the whole of \<open>p\<close>.\<close>

fun matches_scope :: "jsstring \<Rightarrow> bool" where
  "matches_scope (a # c # cs) \<longleftrightarrow>
     a = 64 \<and> scope_first c \<and> cs \<noteq> [] \<and> list_all scope_rest (butlast cs) \<and> last cs = 47"
| "matches_scope _ \<longleftrightarrow> False"

text \<open>\<^verbatim>\<open>[a-z\d\-~][a-z\d\-._~]*\<close> matches the whole of \<open>p\<close>.\<close>

fun matches_pkg :: "jsstring \<Rightarrow> bool" where
  "matches_pkg [] \<longleftrightarrow> False"
| "matches_pkg (c # cs) \<longleftrightarrow> pkg_first c \<and> list_all pkg_rest cs"

text \<open>
  \<^verbatim>\<open>function isValidPackageName(projectName) { return /^(?:...)?...$/.test(projectName) }\<close>

  The expression is anchored at both ends, so the test succeeds exactly when the string
  splits into a prefix matched by the optional scope group (or no prefix at all) and a
  rest matched by the package segment.
\<close>

definition isValidPackageName :: "jsstring \<Rightarrow> bool" where
  "isValidPackageName projectName \<longleftrightarrow>
     matches_pkg projectName \<or>
     list_ex (\<lambda>i. matches_scope (take i projectName) \<and> matches_pkg (drop i projectName))
       [0..<Suc (length projectName)]"

text \<open>
  \<^verbatim>\<open>
  function toValidPackageName(projectName) {
    return projectName.trim().toLowerCase().replace(/\s+/g, '-')
      .replace(/^[._]/, '').replace(/[^a-z\d\-~]+/g, '-')
  }
  \<close>
  \<^verbatim>\<open>String.prototype.toLowerCase\<close> is the Unicode lower-casing of the engine, a function on
  whole strings (one code unit can become two, and some non-ASCII letters become ASCII
  ones). It is the parameter \<open>toLowerCase\<close>.
\<close>

definition toValidPackageName :: "(jsstring \<Rightarrow> jsstring) \<Rightarrow> jsstring \<Rightarrow> jsstring" where
  "toValidPackageName toLowerCase projectName =
     replace_runs (\<lambda>c. \<not> pkg_first c) (js ''-'')
       (strip_leading_dot_or_underscore
         (replace_runs is_whitespace (js ''-'')
           (toLowerCase (trim projectName))))"

text \<open>Lower-casing of ASCII strings: \<^verbatim>\<open>A-Z\<close> (65 to 90) become \<^verbatim>\<open>a-z\<close>.\<close>

definition ascii_toLowerCase :: "jsstring \<Rightarrow> jsstring" where
  "ascii_toLowerCase s = map (\<lambda>c. if 65 \<le> c \<and> c \<le> 90 then c + 32 else c) s"

section \<open>File system\<close>

text \<open>
  The file system is a tree. A directory holds its entries in the order in which
  \<^verbatim>\<open>fs.readdirSync\<close> lists them. A path is the list of names that leads from the root to a
  node (an absolute path without \<^verbatim>\<open>.\<close>, \<^verbatim>\<open>..\<close> and empty segments); there are no symbolic
  links and no permissions.
\<close>

type_synonym path = "jsstring list"

datatype node = File jsstring | Dir "(jsstring \<times> node) list"

datatype errno = ENOENT | ENOTDIR | EEXIST | EBUSY

datatype exn =
    Error jsstring  \<comment> \<open>\<^verbatim>\<open>new Error(message)\<close>\<close>
  | SystemError errno  \<comment> \<open>thrown by a call of \<^verbatim>\<open>node:fs\<close>\<close>
  | TypeError

fun lookup :: "node \<Rightarrow> path \<Rightarrow> node option"
  and lookup_in :: "(jsstring \<times> node) list \<Rightarrow> jsstring \<Rightarrow> path \<Rightarrow> node option" where
  "lookup n [] = Some n"
| "lookup (File c) (x # xs) = None"
| "lookup (Dir es) (x # xs) = lookup_in es x xs"
| "lookup_in [] x xs = None"
| "lookup_in ((n, c) # es) x xs = (if n = x then lookup c xs else lookup_in es x xs)"

definition existsSync :: "node \<Rightarrow> path \<Rightarrow> bool" where
  "existsSync fs p \<longleftrightarrow> lookup fs p \<noteq> None"

text \<open>
  The node that a system call finds at a path, or the error of the call: \<^verbatim>\<open>ENOTDIR\<close> when
  the path goes through a file, \<^verbatim>\<open>ENOENT\<close> when a name is missing.
\<close>

fun stat :: "node \<Rightarrow> path \<Rightarrow> errno + node"
  and stat_in :: "(jsstring \<times> node) list \<Rightarrow> jsstring \<Rightarrow> path \<Rightarrow> errno + node" where
  "stat n [] = Inr n"
| "stat (File c) (x # xs) = Inl ENOTDIR"
| "stat (Dir es) (x # xs) = stat_in es x xs"
| "stat_in [] x xs = Inl ENOENT"
| "stat_in ((n, c) # es) x xs = (if n = x then stat c xs else stat_in es x xs)"

definition readdirSync :: "node \<Rightarrow> path \<Rightarrow> exn + jsstring list" where
  "readdirSync fs p =
     (case stat fs p of
        Inl e \<Rightarrow> Inl (SystemError e)
      | Inr (File c) \<Rightarrow> Inl (SystemError ENOTDIR)
      | Inr (Dir es) \<Rightarrow> Inr (map fst es))"

text \<open>
  \<^verbatim>\<open>
  function isEmpty(path) {
    const files = fs.readdirSync(path)
    return files.length === 0 || (files.length === 1 && files[0] === '.git')
  }
  \<close>
\<close>

definition isEmpty :: "node \<Rightarrow> path \<Rightarrow> exn + bool" where
  "isEmpty fs p =
     (case readdirSync fs p of
        Inl e \<Rightarrow> Inl e
      | Inr files \<Rightarrow>
          Inr (length files = 0 \<or> (length files = 1 \<and> files ! 0 = js ''.git'')))"

text \<open>
  \<^verbatim>\<open>fs.rmSync(p, { recursive: true, force: true })\<close>: the entry at \<open>p\<close> is removed with all it
  contains; with \<^verbatim>\<open>force\<close>, a path whose last name is missing is ignored, and a path that
  goes through a file is still an error. The root itself cannot be removed.
\<close>

fun remove :: "node \<Rightarrow> path \<Rightarrow> node"
  and remove_in :: "(jsstring \<times> node) list \<Rightarrow> jsstring \<Rightarrow> path \<Rightarrow> (jsstring \<times> node) list" where
  "remove (File c) p = File c"
| "remove (Dir es) [] = Dir es"
| "remove (Dir es) (x # xs) = Dir (remove_in es x xs)"
| "remove_in [] x xs = []"
| "remove_in ((n, c) # es) x xs =
     (if n = x then (if xs = [] then remove_in es x xs else (n, remove c xs) # es)
      else (n, c) # remove_in es x xs)"

definition rmSync :: "node \<Rightarrow> path \<Rightarrow> exn + node" where
  "rmSync fs p =
     (if p = [] then Inl (SystemError EBUSY)
      else case stat fs p of
             Inl ENOENT \<Rightarrow> Inr fs
           | Inl e \<Rightarrow> Inl (SystemError e)
           | Inr n \<Rightarrow> Inr (remove fs p))"

text \<open>
  \<^verbatim>\<open>
  function emptyDir(dir) {
    if (!fs.existsSync(dir)) { return }
    for (const file of fs.readdirSync(dir)) {
      if (file === '.git') { continue }
      fs.rmSync(path.resolve(dir, file), { recursive: true, force: true })
    }
  }
  \<close>
  \<open>dir\<close> is an absolute path and \<open>file\<close> the name of an entry, so that
  \<^verbatim>\<open>path.resolve(dir, file)\<close> is \<open>dir @ [file]\<close>.
\<close>

fun emptyDir_loop :: "path \<Rightarrow> jsstring list \<Rightarrow> node \<Rightarrow> exn + node" where
  "emptyDir_loop dir [] fs = Inr fs"
| "emptyDir_loop dir (file # files) fs =
     (if file = js ''.git'' then emptyDir_loop dir files fs
      else case rmSync fs (dir @ [file]) of
             Inl e \<Rightarrow> Inl e
           | Inr fs' \<Rightarrow> emptyDir_loop dir files fs')"

definition emptyDir :: "node \<Rightarrow> path \<Rightarrow> exn + node" where
  "emptyDir fs dir =
     (if \<not> existsSync fs dir then Inr fs
      else case readdirSync fs dir of
             Inl e \<Rightarrow> Inl e
           | Inr files \<Rightarrow> emptyDir_loop dir files fs)"

text \<open>
  \<^verbatim>\<open>fs.mkdirSync(p, { recursive: true })\<close>: the missing directories of \<open>p\<close> are created; a
  directory that exists is left as it is; a file on the way is an error.
\<close>

fun fresh_dirs :: "path \<Rightarrow> node" where
  "fresh_dirs [] = Dir []"
| "fresh_dirs (x # xs) = Dir [(x, fresh_dirs xs)]"

fun mkdir :: "node \<Rightarrow> path \<Rightarrow> exn + node"
  and mkdir_in :: "(jsstring \<times> node) list \<Rightarrow> jsstring \<Rightarrow> path \<Rightarrow> exn + (jsstring \<times> node) list" where
  "mkdir (File c) [] = Inl (SystemError EEXIST)"
| "mkdir (File c) (x # xs) = Inl (SystemError ENOTDIR)"
| "mkdir (Dir es) [] = Inr (Dir es)"
| "mkdir (Dir es) (x # xs) =
     (case mkdir_in es x xs of Inl e \<Rightarrow> Inl e | Inr es' \<Rightarrow> Inr (Dir es'))"
| "mkdir_in [] x xs = Inr [(x, fresh_dirs xs)]"
| "mkdir_in ((n, c) # es) x xs =
     (if n = x then (case mkdir c xs of Inl e \<Rightarrow> Inl e | Inr c' \<Rightarrow> Inr ((n, c') # es))
      else case mkdir_in es x xs of Inl e \<Rightarrow> Inl e | Inr es' \<Rightarrow> Inr ((n, c) # es'))"

definition mkdirSync :: "node \<Rightarrow> path \<Rightarrow> exn + node" where
  "mkdirSync fs p = mkdir fs p"

text \<open>
  \<open>replace_at fs p d\<close> is the tree \<open>fs\<close> with the node at \<open>p\<close> replaced by \<open>d\<close>; it states
  what a call leaves unchanged.
\<close>

fun replace_at :: "node \<Rightarrow> path \<Rightarrow> node \<Rightarrow> node"
  and replace_in :: "(jsstring \<times> node) list \<Rightarrow> jsstring \<Rightarrow> path \<Rightarrow> node \<Rightarrow> (jsstring \<times> node) list" where
  "replace_at n [] d = d"
| "replace_at (File c) (x # xs) d = File c"
| "replace_at (Dir es) (x # xs) d = Dir (replace_in es x xs d)"
| "replace_in [] x xs d = []"
| "replace_in ((n, c) # es) x xs d =
     (if n = x then (n, replace_at c xs d) # es else (n, c) # replace_in es x xs d)"

section \<open>Paths\<close>

text \<open>\<^verbatim>\<open>s.split('/')\<close>.\<close>

fun split_slash :: "jsstring \<Rightarrow> jsstring list" where
  "split_slash [] = [[]]"
| "split_slash (c # cs) =
     (if c = 47 then [] # split_slash cs
      else case split_slash cs of
             [] \<Rightarrow> [[c]]
           | seg # segs \<Rightarrow> (c # seg) # segs)"

text \<open>
  The normalisation of \<^verbatim>\<open>node:path\<close> (POSIX): empty segments and \<^verbatim>\<open>.\<close> are dropped, \<^verbatim>\<open>..\<close>
  removes the last name (and stays at the root).
\<close>

fun normalize :: "path \<Rightarrow> jsstring list \<Rightarrow> path" where
  "normalize p [] = p"
| "normalize p (seg # segs) =
     (if seg = [] \<or> seg = js ''.'' then normalize p segs
      else if seg = js ''..'' then normalize (butlast p) segs
      else normalize (p @ [seg]) segs)"

text \<open>\<^verbatim>\<open>path.join(cwd, targetDir)\<close>, for the absolute path \<open>cwd\<close>.\<close>

definition path_join :: "path \<Rightarrow> jsstring \<Rightarrow> path" where
  "path_join cwd targetDir = normalize cwd (split_slash targetDir)"

text \<open>
  How a system call follows the segments of a path string from the directory \<open>cur\<close>: the
  node reached so far must be a directory for any further segment; an empty segment and
  \<^verbatim>\<open>.\<close> stay, \<^verbatim>\<open>..\<close> goes to the parent (the root is its own parent), a name goes to the
  entry of that name, which must exist. Nothing is normalised beforehand.
\<close>

fun walk :: "node \<Rightarrow> path \<Rightarrow> jsstring list \<Rightarrow> errno + path" where
  "walk fs cur [] = Inr cur"
| "walk fs cur (seg # segs) =
     (case stat fs cur of
        Inl e \<Rightarrow> Inl e
      | Inr (File c) \<Rightarrow> Inl ENOTDIR
      | Inr (Dir es) \<Rightarrow>
          if seg = [] \<or> seg = js ''.'' then walk fs cur segs
          else if seg = js ''..'' then walk fs (butlast cur) segs
          else (case stat fs (cur @ [seg]) of
                  Inl e \<Rightarrow> Inl e
                | Inr n \<Rightarrow> walk fs (cur @ [seg]) segs))"

text \<open>
  The path that a call of \<^verbatim>\<open>node:fs\<close> reaches for the string \<open>targetDir\<close>, or its error: from
  the root when the string starts with a slash, from the working directory of the process
  otherwise. The empty string reaches nothing.
\<close>

definition reach :: "node \<Rightarrow> path \<Rightarrow> jsstring \<Rightarrow> errno + path" where
  "reach fs cwd targetDir =
     (case targetDir of
        [] \<Rightarrow> Inl ENOENT
      | c # cs \<Rightarrow> walk fs (if c = 47 then [] else cwd) (split_slash targetDir))"

text \<open>\<^verbatim>\<open>path.basename(path.resolve())\<close>: the last name of the working directory.\<close>

definition basename_cwd :: "path \<Rightarrow> jsstring" where
  "basename_cwd cwd = (if cwd = [] then [] else last cwd)"

section \<open>JSON\<close>

text \<open>
  A JSON document is the syntax tree of a JSON text: the members of an object in the order
  of the text, with the duplicates the grammar allows. A numeral is kept as the double that
  it denotes: zero, minus zero (\<^verbatim>\<open>-0\<close>), another finite double (of a type \<open>'n\<close> that stands for
  these), or an infinity, for a numeral too large for a double (\<^verbatim>\<open>1e999\<close>, \<^verbatim>\<open>-1e999\<close>). No
  numeral denotes \<^verbatim>\<open>NaN\<close>.
\<close>

datatype 'n number = NumZero | NumMinusZero | NumFinite 'n | NumInfinity | NumMinusInfinity

datatype 'n json =
    JNull | JBool bool | JNumber "'n number" | JString jsstring
  | JArray "'n json list" | JObject "(jsstring \<times> 'n json) list"

text \<open>
  A value of the engine. The properties of an object are listed in the order of its own
  property keys: array indices in ascending order first, then the other keys in the order
  of their creation.
\<close>

datatype 'n jsvalue =
    VNull | VBoolean bool | VNumber "'n number" | VString jsstring
  | VArray "'n jsvalue list" | VObject "(jsstring \<times> 'n jsvalue) list"

definition digits_value :: "jsstring \<Rightarrow> nat" where
  "digits_value k = foldl (\<lambda>a c. 10 * a + (c - 48)) 0 k"

text \<open>
  An array index is the canonical decimal numeral of an integer from 0 to \<open>2^32 - 2\<close>.
\<close>

definition is_array_index :: "jsstring \<Rightarrow> bool" where
  "is_array_index k \<longleftrightarrow>
     k \<noteq> [] \<and> list_all (\<lambda>c. 48 \<le> c \<and> c \<le> 57) k \<and> (hd k \<noteq> 48 \<or> k = [48]) \<and>
     digits_value k < 4294967295"

text \<open>The key \<open>k\<close> is listed before the key \<open>k'\<close> whenever it is created.\<close>

definition listed_before :: "jsstring \<Rightarrow> jsstring \<Rightarrow> bool" where
  "listed_before k k' \<longleftrightarrow>
     is_array_index k \<and> (is_array_index k' \<longrightarrow> digits_value k < digits_value k')"

text \<open>
  \<^verbatim>\<open>obj[k] = v\<close> on a plain object: an existing property keeps its place and takes the new
  value; a new one is put where its key is listed.
\<close>

fun set_property :: "jsstring \<Rightarrow> 'a \<Rightarrow> (jsstring \<times> 'a) list \<Rightarrow> (jsstring \<times> 'a) list" where
  "set_property k v [] = [(k, v)]"
| "set_property k v ((k', v') # ps) =
     (if k' = k then (k, v) # ps
      else if listed_before k k' then (k, v) # (k', v') # ps
      else (k', v') # set_property k v ps)"

definition create_properties :: "(jsstring \<times> 'a) list \<Rightarrow> (jsstring \<times> 'a) list" where
  "create_properties ms = foldl (\<lambda>ps m. set_property (fst m) (snd m) ps) [] ms"

text \<open>\<^verbatim>\<open>JSON.parse\<close>, from the syntax tree of the text.\<close>

primrec JSON_parse :: "'n json \<Rightarrow> 'n jsvalue" where
  "JSON_parse JNull = VNull"
| "JSON_parse (JBool b) = VBoolean b"
| "JSON_parse (JNumber x) = VNumber x"
| "JSON_parse (JString s) = VString s"
| "JSON_parse (JArray xs) = VArray (map JSON_parse xs)"
| "JSON_parse (JObject ms) = VObject (create_properties (map (map_prod id JSON_parse) ms))"

text \<open>
  \<^verbatim>\<open>JSON.stringify(value, null, 2)\<close>, as the syntax tree of the text it returns (the text is
  the rendering of this tree with an indentation of two spaces). An infinity is written
  \<^verbatim>\<open>null\<close> and minus zero is written \<^verbatim>\<open>0\<close>.
\<close>

fun stringify_number :: "'n number \<Rightarrow> 'n json" where
  "stringify_number NumInfinity = JNull"
| "stringify_number NumMinusInfinity = JNull"
| "stringify_number NumMinusZero = JNumber NumZero"
| "stringify_number x = JNumber x"

primrec JSON_stringify :: "'n jsvalue \<Rightarrow> 'n json" where
  "JSON_stringify VNull = JNull"
| "JSON_stringify (VBoolean b) = JBool b"
| "JSON_stringify (VNumber x) = stringify_number x"
| "JSON_stringify (VString s) = JString s"
| "JSON_stringify (VArray xs) = JArray (map JSON_stringify xs)"
| "JSON_stringify (VObject ps) = JObject (map (map_prod id JSON_stringify) ps)"

text \<open>\<^verbatim>\<open>packageName || getProjectName()\<close>: the empty string and \<^verbatim>\<open>undefined\<close> are falsy.\<close>

definition effective_name :: "jsstring option \<Rightarrow> jsstring \<Rightarrow> jsstring" where
  "effective_name packageName projectName =
     (case packageName of
        None \<Rightarrow> projectName
      | Some s \<Rightarrow> if s = [] then projectName else s)"

text \<open>
  \<^verbatim>\<open>
  const pkg = JSON.parse(fs.readFileSync(path.join(templateDir, 'package.json'), 'utf-8'))
  pkg.name = packageName || getProjectName()
  write('package.json', JSON.stringify(pkg, null, 2) + '\n')
  \<close>
  \<open>manifest\<close> is the document read; the result is the document written (a newline follows
  its text). The assignment throws on \<^verbatim>\<open>null\<close> and, the file being a module, on a
  primitive; on an array it sets a property that \<^verbatim>\<open>JSON.stringify\<close> does not write.
\<close>

definition rewrite_manifest :: "'n json \<Rightarrow> jsstring option \<Rightarrow> jsstring \<Rightarrow> exn + 'n json" where
  "rewrite_manifest manifest packageName projectName =
     (case JSON_parse manifest of
        VObject ps \<Rightarrow>
          Inr (JSON_stringify
                (VObject (set_property (js ''name'')
                   (VString (effective_name packageName projectName)) ps)))
      | VArray xs \<Rightarrow> Inr (JSON_stringify (VArray xs))
      | _ \<Rightarrow> Inl TypeError)"

text \<open>
  A document in which, at every level, the keys of an object are distinct and none is an
  array index.
\<close>

fun plain :: "'n json \<Rightarrow> bool" where
  "plain (JArray xs) \<longleftrightarrow> (\<forall>x \<in> set xs. plain x)"
| "plain (JObject ms) \<longleftrightarrow>
     distinct (map fst ms) \<and> (\<forall>m \<in> set ms. \<not> is_array_index (fst m) \<and> plain (snd m))"
| "plain _ \<longleftrightarrow> True"

text \<open>A double that is finite and is not minus zero: the numbers that are written as they are.\<close>

fun finite_number :: "'n number \<Rightarrow> bool" where
  "finite_number NumZero \<longleftrightarrow> True"
| "finite_number (NumFinite x) \<longleftrightarrow> True"
| "finite_number _ \<longleftrightarrow> False"

text \<open>A document all of whose numerals, at every level, denote such doubles.\<close>

fun finite_numbers :: "'n json \<Rightarrow> bool" where
  "finite_numbers (JNumber x) \<longleftrightarrow> finite_number x"
| "finite_numbers (JArray xs) \<longleftrightarrow> (\<forall>x \<in> set xs. finite_numbers x)"
| "finite_numbers (JObject ms) \<longleftrightarrow> (\<forall>m \<in> set ms. finite_numbers (snd m))"
| "finite_numbers _ \<longleftrightarrow> True"

section \<open>Template catalogue\<close>

datatype color = Red | Magenta | Cyan | Green

record variant =
  name :: jsstring
  display :: jsstring
  color :: color

record layout = variant +
  variants :: "variant list"

definition LAYOUTS :: "layout list" where
  "LAYOUTS =
     [\<lparr>name = js ''pug'', display = js ''Pug'', color = Red,
        variants =
          [\<lparr>name = js ''pug-scss'', display = js ''Pug scss'', color = Magenta\<rparr>,
           \<lparr>name = js ''pug-css'', display = js ''Pug CSS'', color = Cyan\<rparr>]\<rparr>,
      \<lparr>name = js ''html'', display = js ''HTML'', color = Green,
        variants =
          [\<lparr>name = js ''html-scss'', display = js ''HTML Scss'', color = Magenta\<rparr>,
           \<lparr>name = js ''html-css'', display = js ''HTML CSS'', color = Cyan\<rparr>]\<rparr>]"

text \<open>
  \<^verbatim>\<open>const TEMPLATES = LAYOUTS.map(f => f.variants.map(v => v.name)).reduce((a, b) => a.concat(b), [])\<close>
\<close>

definition TEMPLATES :: "jsstring list" where
  "TEMPLATES = foldl (\<lambda>a b. a @ b) [] (map (\<lambda>f. map name (variants f)) LAYOUTS)"

definition DEFAULT_TARGET_DIR :: jsstring where
  "DEFAULT_TARGET_DIR = js ''loom-project''"

section \<open>The questions\<close>

text \<open>
  The value of \<^verbatim>\<open>argv.template || argv.t\<close>: a string, or a value of another kind
  (\<^verbatim>\<open>undefined\<close>, \<^verbatim>\<open>true\<close>, a number). No such value is a member of \<^verbatim>\<open>TEMPLATES\<close>, truthy or
  not, so the code treats them alike.
\<close>

datatype 'v argval = Str jsstring | NotString 'v

text \<open>
  What the user does at a prompt that is shown: abort it, or submit. A text prompt yields
  the line typed, a confirmation a boolean, a selection the position of the cursor. The
  package-name prompt stays open while the line submitted is rejected by \<^verbatim>\<open>validate\<close>: its
  reply is the list of the lines submitted, and the user aborts when none is accepted.
\<close>

datatype 'a reply = Aborted | Answered 'a

record user =
  reply_projectName :: "jsstring reply"
  reply_overwrite :: "bool reply"
  reply_packageName :: "jsstring list"
  reply_framework :: "nat reply"
  reply_variant :: "nat reply"

text \<open>The answer of the last prompt shown, which \<^verbatim>\<open>prompts\<close> passes to the next question.\<close>

datatype answer = Undefined | Text jsstring | Confirmed bool | Chosen layout

datatype question = ProjectName | Overwrite | PackageName | Framework | Variant

record answers =
  a_projectName :: "jsstring option"
  a_overwrite :: "bool option"
  a_packageName :: "jsstring option"
  a_framework :: "layout option"
  a_variant :: "jsstring option"

text \<open>
  The state of the run of \<^verbatim>\<open>prompts\<close>: the variable \<^verbatim>\<open>targetDir\<close> of \<^verbatim>\<open>init\<close> that the
  callbacks read and write, the answers so far, the last answer, and the prompts shown so
  far with what the user did.
\<close>

record pstate =
  cur_targetDir :: jsstring
  cur_answers :: answers
  last_answer :: answer
  shown :: "(question \<times> answer reply) list"

type_synonym outcome = "(exn \<times> (question \<times> answer reply) list) + pstate"

text \<open>\<^verbatim>\<open>new Error(red('\<dots>') + ' Operation cancelled!')\<close>; the sign is U+2716.\<close>

definition cancelled :: "(jsstring \<Rightarrow> jsstring) \<Rightarrow> exn" where
  "cancelled red = Error (red [10006] @ js '' Operation cancelled!'')"

text \<open>
  A prompt is shown: the reply is recorded; on an abort \<^verbatim>\<open>prompts\<close> calls \<^verbatim>\<open>onCancel\<close>, which
  throws.
\<close>

definition show_prompt ::
  "(jsstring \<Rightarrow> jsstring) \<Rightarrow> question \<Rightarrow> answer reply \<Rightarrow> (answers \<Rightarrow> answers) \<Rightarrow> pstate \<Rightarrow> outcome" where
  "show_prompt red q r store st =
     (case r of
        Aborted \<Rightarrow> Inl (cancelled red, shown st @ [(q, Aborted)])
      | Answered a \<Rightarrow>
          Inr (st\<lparr>cur_answers := store (cur_answers st), last_answer := a, shown := shown st @ [(q, r)]\<rparr>))"

text \<open>
  \<^verbatim>\<open>const getProjectName = () => (targetDir === '.' ? path.basename(path.resolve()) : targetDir)\<close>
\<close>

definition getProjectName :: "path \<Rightarrow> jsstring \<Rightarrow> jsstring" where
  "getProjectName cwd targetDir =
     (if targetDir = js ''.'' then basename_cwd cwd else targetDir)"

text \<open>\<^verbatim>\<open>x || DEFAULT_TARGET_DIR\<close> for a string or \<^verbatim>\<open>undefined\<close>.\<close>

definition or_default :: "jsstring option \<Rightarrow> jsstring" where
  "or_default x =
     (case x of
        None \<Rightarrow> DEFAULT_TARGET_DIR
      | Some s \<Rightarrow> if s = [] then DEFAULT_TARGET_DIR else s)"

text \<open>
  Question \<^verbatim>\<open>projectName\<close>: \<^verbatim>\<open>type: argTargetDir ? null : 'text'\<close>, \<^verbatim>\<open>initial: DEFAULT_TARGET_DIR\<close>,
  \<^verbatim>\<open>onState: state => { targetDir = formatTargetDir(state.value) || DEFAULT_TARGET_DIR }\<close>.
  The prompt submits the initial value for an empty line.
\<close>

definition ask_projectName ::
  "(jsstring \<Rightarrow> jsstring) \<Rightarrow> jsstring option \<Rightarrow> user \<Rightarrow> pstate \<Rightarrow> outcome" where
  "ask_projectName red argTargetDir u st =
     (if argTargetDir \<noteq> None \<and> argTargetDir \<noteq> Some [] then Inr st
      else case reply_projectName u of
             Aborted \<Rightarrow> show_prompt red ProjectName Aborted id st
           | Answered typed \<Rightarrow>
               (let v = (if typed = [] then DEFAULT_TARGET_DIR else typed)
                in show_prompt red ProjectName (Answered (Text v))
                     (\<lambda>a. a\<lparr>a_projectName := Some v\<rparr>)
                     (st\<lparr>cur_targetDir := or_default (formatTargetDir (Some v))\<rparr>)))"

text \<open>
  Question \<^verbatim>\<open>overwrite\<close>:
  \<^verbatim>\<open>type: () => (!fs.existsSync(targetDir) || isEmpty(targetDir) ? null : 'confirm')\<close>.
  Both calls are given the string \<^verbatim>\<open>targetDir\<close>; \<open>p\<close> is the path that they reach, and
  \<^verbatim>\<open>fs.existsSync\<close> is false when they reach none.
\<close>

definition ask_overwrite ::
  "(jsstring \<Rightarrow> jsstring) \<Rightarrow> node \<Rightarrow> path \<Rightarrow> user \<Rightarrow> pstate \<Rightarrow> outcome" where
  "ask_overwrite red fs cwd u st =
     (case reach fs cwd (cur_targetDir st) of
        Inl e \<Rightarrow> Inr st
      | Inr p \<Rightarrow>
          if \<not> existsSync fs p then Inr st
          else case isEmpty fs p of
                 Inl e \<Rightarrow> Inl (e, shown st)
               | Inr True \<Rightarrow> Inr st
               | Inr False \<Rightarrow>
                   (case reply_overwrite u of
                      Aborted \<Rightarrow> show_prompt red Overwrite Aborted id st
                    | Answered b \<Rightarrow>
                        show_prompt red Overwrite (Answered (Confirmed b))
                          (\<lambda>a. a\<lparr>a_overwrite := Some b\<rparr>) st))"

text \<open>
  Question \<^verbatim>\<open>overwriteChecker\<close>:
  \<^verbatim>\<open>type: (_, { overwrite }) => { if (overwrite === false) { throw new Error(...) } return null }\<close>.
\<close>

definition overwriteChecker :: "(jsstring \<Rightarrow> jsstring) \<Rightarrow> pstate \<Rightarrow> outcome" where
  "overwriteChecker red st =
     (if a_overwrite (cur_answers st) = Some False then Inl (cancelled red, shown st) else Inr st)"

text \<open>
  Question \<^verbatim>\<open>packageName\<close>: \<^verbatim>\<open>type: () => (isValidPackageName(getProjectName()) ? null : 'text')\<close>,
  \<^verbatim>\<open>initial: () => toValidPackageName(getProjectName())\<close>,
  \<^verbatim>\<open>validate: dir => isValidPackageName(dir) || 'Invalid package.json name'\<close>.
\<close>

definition ask_packageName ::
  "(jsstring \<Rightarrow> jsstring) \<Rightarrow> (jsstring \<Rightarrow> jsstring) \<Rightarrow> path \<Rightarrow> user \<Rightarrow> pstate \<Rightarrow> outcome" where
  "ask_packageName toLowerCase red cwd u st =
     (if isValidPackageName (getProjectName cwd (cur_targetDir st)) then Inr st
      else
        (let initial = toValidPackageName toLowerCase (getProjectName cwd (cur_targetDir st));
             submitted = map (\<lambda>typed. if typed = [] then initial else typed) (reply_packageName u)
         in case find isValidPackageName submitted of
              None \<Rightarrow> show_prompt red PackageName Aborted id st
            | Some v \<Rightarrow>
                show_prompt red PackageName (Answered (Text v))
                  (\<lambda>a. a\<lparr>a_packageName := Some v\<rparr>) st))"

text \<open>\<^verbatim>\<open>argTemplate && TEMPLATES.includes(argTemplate)\<close>.\<close>

definition known_template :: "'v argval \<Rightarrow> bool" where
  "known_template argTemplate \<longleftrightarrow>
     (case argTemplate of
        Str s \<Rightarrow> s \<noteq> [] \<and> s \<in> set TEMPLATES
      | NotString x \<Rightarrow> False)"

text \<open>
  A selection yields \<^verbatim>\<open>(choices[cursor] || {}).value\<close>: the value under the cursor, or
  \<^verbatim>\<open>undefined\<close>.
\<close>

definition selected :: "'a list \<Rightarrow> nat \<Rightarrow> 'a option" where
  "selected choices cursor = (if cursor < length choices then Some (choices ! cursor) else None)"

text \<open>
  Question \<^verbatim>\<open>framework\<close>: \<^verbatim>\<open>type: argTemplate && TEMPLATES.includes(argTemplate) ? null : 'select'\<close>,
  the choices are the layouts, in the order of \<^verbatim>\<open>LAYOUTS\<close>.
\<close>

definition ask_framework ::
  "(jsstring \<Rightarrow> jsstring) \<Rightarrow> 'v argval \<Rightarrow> user \<Rightarrow> pstate \<Rightarrow> outcome" where
  "ask_framework red argTemplate u st =
     (if known_template argTemplate then Inr st
      else case reply_framework u of
             Aborted \<Rightarrow> show_prompt red Framework Aborted id st
           | Answered cursor \<Rightarrow>
               (let v = selected LAYOUTS cursor
                in show_prompt red Framework
                     (Answered (case v of None \<Rightarrow> Undefined | Some f \<Rightarrow> Chosen f))
                     (\<lambda>a. a\<lparr>a_framework := v\<rparr>) st))"

text \<open>
  Question \<^verbatim>\<open>variant\<close>: \<^verbatim>\<open>type: framework => (framework && framework.variants ? 'select' : null)\<close>,
  where \<^verbatim>\<open>framework\<close> is the last answer; only a layout has the property \<^verbatim>\<open>variants\<close>. The
  choices are the names of the variants of that layout.
\<close>

definition ask_variant :: "(jsstring \<Rightarrow> jsstring) \<Rightarrow> user \<Rightarrow> pstate \<Rightarrow> outcome" where
  "ask_variant red u st =
     (case last_answer st of
        Chosen f \<Rightarrow>
          (case reply_variant u of
             Aborted \<Rightarrow> show_prompt red Variant Aborted id st
           | Answered cursor \<Rightarrow>
               (let v = selected (map name (variants f)) cursor
                in show_prompt red Variant
                     (Answered (case v of None \<Rightarrow> Undefined | Some s \<Rightarrow> Text s))
                     (\<lambda>a. a\<lparr>a_variant := v\<rparr>) st))
      | _ \<Rightarrow> Inr st)"

text \<open>The questions in their order; an exception ends the run.\<close>

definition and_then :: "outcome \<Rightarrow> (pstate \<Rightarrow> outcome) \<Rightarrow> outcome" where
  "and_then r f = (case r of Inl e \<Rightarrow> Inl e | Inr st \<Rightarrow> f st)"

definition prompts ::
  "(jsstring \<Rightarrow> jsstring) \<Rightarrow> (jsstring \<Rightarrow> jsstring) \<Rightarrow> node \<Rightarrow> path \<Rightarrow> jsstring option \<Rightarrow>
   'v argval \<Rightarrow> user \<Rightarrow> outcome" where
  "prompts toLowerCase red fs cwd argTargetDir argTemplate u =
     and_then (and_then (and_then (and_then (and_then
       (ask_projectName red argTargetDir u
          \<lparr>cur_targetDir = or_default argTargetDir,
           cur_answers = \<lparr>a_projectName = None, a_overwrite = None, a_packageName = None,
                          a_framework = None, a_variant = None\<rparr>,
           last_answer = Undefined, shown = []\<rparr>)
       (ask_overwrite red fs cwd u))
       (overwriteChecker red))
       (ask_packageName toLowerCase red cwd u))
       (ask_framework red argTemplate u))
       (ask_variant red u)"

text \<open>The prompts shown in a run, with what the user did at each.\<close>

definition interaction ::
  "(jsstring \<Rightarrow> jsstring) \<Rightarrow> (jsstring \<Rightarrow> jsstring) \<Rightarrow> node \<Rightarrow> path \<Rightarrow> jsstring option \<Rightarrow>
   'v argval \<Rightarrow> user \<Rightarrow> (question \<times> answer reply) list" where
  "interaction toLowerCase red fs cwd argTargetDir argTemplate u =
     (case prompts toLowerCase red fs cwd argTargetDir argTemplate u of
        Inl (e, sh) \<Rightarrow> sh
      | Inr st \<Rightarrow> shown st)"

section \<open>The workflow\<close>

text \<open>\<^verbatim>\<open>let template = variant || framework?.name || argTemplate\<close>\<close>

definition resolve_template :: "jsstring option \<Rightarrow> layout option \<Rightarrow> 'v argval \<Rightarrow> 'v argval" where
  "resolve_template variant framework argTemplate =
     (if variant \<noteq> None \<and> variant \<noteq> Some [] then Str (the variant)
      else if framework \<noteq> None \<and> name (the framework) \<noteq> [] then Str (name (the framework))
      else argTemplate)"

text \<open>
  What the process has done: the file system, the lines of \<^verbatim>\<open>console.log\<close>, the errors of
  \<^verbatim>\<open>console.error\<close>, and the calls made that change the file system, in their order.
\<close>

datatype line = Message jsstring | SystemMessage errno | TypeErrorMessage

datatype call = EmptyDirCall path | MkdirSyncCall path | ScaffoldCall path

record world =
  w_fs :: node
  w_stdout :: "line list"
  w_stderr :: "exn list"
  w_calls :: "call list"

text \<open>\<^verbatim>\<open>e.message\<close>\<close>

fun message :: "exn \<Rightarrow> line" where
  "message (Error m) = Message m"
| "message (SystemError e) = SystemMessage e"
| "message TypeError = TypeErrorMessage"

text \<open>
  \<^verbatim>\<open>
  if (overwrite) { emptyDir(root) }
  else if (!fs.existsSync(root)) { fs.mkdirSync(root, { recursive: true }) }
  \<close>
\<close>

definition prepare_root :: "bool option \<Rightarrow> path \<Rightarrow> world \<Rightarrow> exn option \<times> world" where
  "prepare_root overwrite root w =
     (if overwrite = Some True then
        (case emptyDir (w_fs w) root of
           Inl e \<Rightarrow> (Some e, w\<lparr>w_calls := w_calls w @ [EmptyDirCall root]\<rparr>)
         | Inr fs' \<Rightarrow> (None, w\<lparr>w_fs := fs', w_calls := w_calls w @ [EmptyDirCall root]\<rparr>))
      else if \<not> existsSync (w_fs w) root then
        (case mkdirSync (w_fs w) root of
           Inl e \<Rightarrow> (Some e, w\<lparr>w_calls := w_calls w @ [MkdirSyncCall root]\<rparr>)
         | Inr fs' \<Rightarrow> (None, w\<lparr>w_fs := fs', w_calls := w_calls w @ [MkdirSyncCall root]\<rparr>))
      else (None, w))"

text \<open>
  \<^verbatim>\<open>init\<close>, with \<^verbatim>\<open>init().catch(e => { console.error(e) })\<close>. The arguments of the command
  line are \<open>argv0\<close> (\<^verbatim>\<open>argv._[0]\<close>) and \<open>argTemplate\<close>. What follows the choice of the template
  (the copy of the template files, the manifest, the instructions printed) is the
  parameter \<open>scaffold\<close>, a function of the root, the template, the package name and the
  world; it returns the world it leaves and the exception it throws, if any. An exception
  that leaves \<^verbatim>\<open>init\<close> is printed by \<^verbatim>\<open>console.error\<close>.
\<close>

definition init ::
  "(jsstring \<Rightarrow> jsstring) \<Rightarrow> (jsstring \<Rightarrow> jsstring) \<Rightarrow>
   (path \<Rightarrow> 'v argval \<Rightarrow> jsstring \<Rightarrow> world \<Rightarrow> exn option \<times> world) \<Rightarrow>
   path \<Rightarrow> jsstring option \<Rightarrow> 'v argval \<Rightarrow> user \<Rightarrow> world \<Rightarrow> world" where
  "init toLowerCase red scaffold cwd argv0 argTemplate u w =
     (let argTargetDir = formatTargetDir argv0
      in case prompts toLowerCase red (w_fs w) cwd argTargetDir argTemplate u of
           Inl (e, sh) \<Rightarrow> w\<lparr>w_stdout := w_stdout w @ [message e]\<rparr>
         | Inr st \<Rightarrow>
             (let root = path_join cwd (cur_targetDir st);
                  a = cur_answers st
              in case prepare_root (a_overwrite a) root w of
                   (Some e, w1) \<Rightarrow> w1\<lparr>w_stderr := w_stderr w1 @ [e]\<rparr>
                 | (None, w1) \<Rightarrow>
                     (case scaffold root
                             (resolve_template (a_variant a) (a_framework a) argTemplate)
                             (effective_name (a_packageName a) (getProjectName cwd (cur_targetDir st)))
                             (w1\<lparr>w_calls := w_calls w1 @ [ScaffoldCall root]\<rparr>) of
                        (None, w2) \<Rightarrow> w2
                      | (Some e, w2) \<Rightarrow> w2\<lparr>w_stderr := w_stderr w2 @ [e]\<rparr>)))"

section \<open>Notions used in the statements and proofs\<close>

text \<open>The order of the own property keys of an object: distinct, and listed as the engine lists them.\<close>

definition ordered :: "jsstring list \<Rightarrow> bool" where
  "ordered ks \<longleftrightarrow> distinct ks \<and> sorted_wrt (\<lambda>a b. \<not> listed_before b a) ks"

text \<open>
  A value whose objects, at every level, list their properties in that order, and whose
  numbers are finite and not minus zero.
\<close>

fun canonical :: "'n jsvalue \<Rightarrow> bool" where
  "canonical (VNumber x) \<longleftrightarrow> finite_number x"
| "canonical (VArray xs) \<longleftrightarrow> (\<forall>x \<in> set xs. canonical x)"
| "canonical (VObject ps) \<longleftrightarrow> ordered (map fst ps) \<and> (\<forall>p \<in> set ps. canonical (snd p))"
| "canonical _ \<longleftrightarrow> True"

text \<open>No prompt of the run was aborted.\<close>

definition no_abort :: "(question \<times> answer reply) list \<Rightarrow> bool" where
  "no_abort sh \<longleftrightarrow> (\<forall>q. (q, Aborted) \<notin> set sh)"

text \<open>The user answered no to the confirmation.\<close>

definition declined :: "(question \<times> answer reply) list \<Rightarrow> bool" where
  "declined sh \<longleftrightarrow> (Overwrite, Answered (Confirmed False)) \<in> set sh"

text \<open>The selections recorded come from the catalogue.\<close>

definition choices_ok :: "pstate \<Rightarrow> bool" where
  "choices_ok st \<longleftrightarrow>
     (\<forall>f. a_framework (cur_answers st) = Some f \<longrightarrow> f \<in> set LAYOUTS) \<and>
     (\<forall>v. a_variant (cur_answers st) = Some v \<longrightarrow> v \<in> set TEMPLATES) \<and>
     (\<forall>f. last_answer st = Chosen f \<longrightarrow> f \<in> set LAYOUTS)"

text \<open>The invariant of the run after a question that did not throw.\<close>

definition undecided :: "pstate \<Rightarrow> bool" where
  "undecided st \<longleftrightarrow> no_abort (shown st) \<and> \<not> declined (shown st) \<and> choices_ok st"

text \<open>The invariant between the confirmation and its check.\<close>

definition before_check :: "pstate \<Rightarrow> bool" where
  "before_check st \<longleftrightarrow>
     no_abort (shown st) \<and>
     (declined (shown st) \<longrightarrow> a_overwrite (cur_answers st) = Some False) \<and> choices_ok st"

text \<open>
  An outcome is as expected: the state satisfies \<open>P\<close>, or the exception thrown is the
  cancellation whenever a prompt was aborted or the confirmation declined.
\<close>

definition outcome_ok :: "(jsstring \<Rightarrow> jsstring) \<Rightarrow> (pstate \<Rightarrow> bool) \<Rightarrow> outcome \<Rightarrow> bool" where
  "outcome_ok red P r \<longleftrightarrow>
     (case r of
        Inr st \<Rightarrow> P st
      | Inl (e, sh) \<Rightarrow> (declined sh \<or> \<not> no_abort sh \<longrightarrow> e = cancelled red))"

section \<open>Properties of the string utilities\<close>

lemmas class_defs = lower_or_digit_def scope_first_def scope_rest_def pkg_first_def pkg_rest_def

lemma pkg_first_not_whitespace: "pkg_first c \<Longrightarrow> \<not> is_whitespace c"
  by (auto simp: class_defs is_whitespace_def)

lemma dropWhile_rev_id: "xs = [] \<or> \<not> P (last xs) \<Longrightarrow> rev (dropWhile P (rev xs)) = xs"
  by (cases xs rule: rev_cases) auto

lemma dropWhile_hd_id: "xs = [] \<or> \<not> P (hd xs) \<Longrightarrow> dropWhile P xs = xs"
  by (cases xs) auto

lemma replace_runs_id: "list_all (\<lambda>c. \<not> C c) s \<Longrightarrow> replace_runs C r s = s"
  by (induction s) auto

lemma replace_runs_class:
  "list_all D r \<Longrightarrow> (\<And>c. \<not> C c \<Longrightarrow> D c) \<Longrightarrow> list_all D (replace_runs C r s)"
  by (induction C r s rule: replace_runs.induct) auto

lemma toValidPackageName_chars: "list_all pkg_first (toValidPackageName lc s)"
  unfolding toValidPackageName_def
  by (rule replace_runs_class) (auto simp: js_def class_defs)

lemma trim_id: "list_all (\<lambda>c. \<not> is_whitespace c) s \<Longrightarrow> trim s = s"
proof -
  assume a: "list_all (\<lambda>c. \<not> is_whitespace c) s"
  then have h: "dropWhile is_whitespace s = s" by (cases s) auto
  from a have l: "rev (dropWhile is_whitespace (rev s)) = s" by (cases s rule: rev_cases) auto
  show ?thesis unfolding trim_def by (simp add: h l)
qed

lemma strip_leading_id: "list_all pkg_first s \<Longrightarrow> strip_leading_dot_or_underscore s = s"
  by (cases s) (auto simp: class_defs)

lemma ascii_lower_id: "list_all pkg_first s \<Longrightarrow> ascii_toLowerCase s = s"
  unfolding ascii_toLowerCase_def
  by (induction s) (auto simp: class_defs)

lemma pkg_first_ascii: "list_all pkg_first s \<Longrightarrow> list_all (\<lambda>c. c < 128) s"
  by (induction s) (auto simp: class_defs)

lemmas eval_defs = js_def class_defs is_whitespace_def trim_def strip_trailing_slashes_def
  formatTargetDir_def isValidPackageName_def toValidPackageName_def ascii_toLowerCase_def

text \<open>
  Claim C5. \<^verbatim>\<open>toValidPackageName\<close> is idempotent: applied to its own result, it returns that
  result, for every string. The result consists of the characters \<^verbatim>\<open>a-z\<close>, \<^verbatim>\<open>0-9\<close>, \<^verbatim>\<open>-\<close> and
  \<^verbatim>\<open>~\<close> only, and each of the five steps leaves such a string as it is. The lower-casing of
  the engine is any function that agrees with the ASCII one on ASCII strings.
\<close>

theorem toValidPackageName_idempotent:
  assumes lc: "\<And>t. list_all (\<lambda>c. c < 128) t \<Longrightarrow> toLowerCase t = ascii_toLowerCase t"
  shows "toValidPackageName toLowerCase (toValidPackageName toLowerCase s) =
         toValidPackageName toLowerCase s"
proof -
  define r where "r = toValidPackageName toLowerCase s"
  have ok: "list_all pkg_first r"
    unfolding r_def by (rule toValidPackageName_chars)
  have nows: "list_all (\<lambda>c. \<not> is_whitespace c) r"
    using ok by (induction r) (auto dest: pkg_first_not_whitespace)
  have t: "trim r = r" using nows by (rule trim_id)
  have l: "toLowerCase r = r"
    using lc [OF pkg_first_ascii [OF ok]] ascii_lower_id [OF ok] by simp
  have w: "replace_runs is_whitespace (js ''-'') r = r"
    using nows by (rule replace_runs_id)
  have d: "strip_leading_dot_or_underscore r = r" using ok by (rule strip_leading_id)
  have p: "replace_runs (\<lambda>c. \<not> pkg_first c) (js ''-'') r = r"
    by (rule replace_runs_id) (use ok in simp)
  have "toValidPackageName toLowerCase r = r"
    unfolding toValidPackageName_def by (simp only: t l w d p)
  then show ?thesis unfolding r_def .
qed

text \<open>
  The theorem at the string \<^verbatim>\<open>My Cool App!!\<close>, with the ASCII lower-casing.
\<close>

theorem toValidPackageName_idempotent_witness:
  "toValidPackageName ascii_toLowerCase (js ''My Cool App!!'') = js ''my-cool-app-'' \<and>
   toValidPackageName ascii_toLowerCase (toValidPackageName ascii_toLowerCase (js ''My Cool App!!''))
     = js ''my-cool-app-''"
proof -
  have e: "toValidPackageName ascii_toLowerCase (js ''My Cool App!!'') = js ''my-cool-app-''"
    by (simp add: eval_defs)
  show ?thesis
    using toValidPackageName_idempotent [of ascii_toLowerCase "js ''My Cool App!!''"] e by simp
qed

text \<open>
  Claim C4, as stated, fails: the package segment may start with a dash, so that
  \<^verbatim>\<open>-leading-dash\<close> is accepted.
\<close>

theorem leading_dash_accepted: "isValidPackageName (js ''-leading-dash'')"
  by (simp add: eval_defs)

text \<open>
  Claim C4, amended. \<^verbatim>\<open>isValidPackageName\<close> accepts \<^verbatim>\<open>@scope/pkg-name\<close>, rejects \<^verbatim>\<open>My Project\<close>
  and accepts \<^verbatim>\<open>-leading-dash\<close>.
\<close>

theorem isValidPackageName_examples:
  "isValidPackageName (js ''@scope/pkg-name'') \<and>
   \<not> isValidPackageName (js ''My Project'') \<and>
   isValidPackageName (js ''-leading-dash'')"
  by (simp add: eval_defs)

lemma matches_pkg_no_star_slash: "matches_pkg s \<Longrightarrow> 42 \<notin> set s \<and> 47 \<notin> set s"
  by (cases s) (auto simp: class_defs list_all_iff)

lemma isValidPackageName_split:
  "isValidPackageName s \<longleftrightarrow>
     matches_pkg s \<or> (\<exists>i\<le>length s. matches_scope (take i s) \<and> matches_pkg (drop i s))"
proof -
  have "(\<exists>i\<in>set [0..<Suc (length s)]. P i) \<longleftrightarrow> (\<exists>i\<le>length s. P i)" for P
    by (simp only: set_upt atLeastLessThan_iff Bex_def less_Suc_eq_le) blast
  then show ?thesis by (simp only: isValidPackageName_def list_ex_iff)
qed

lemma matches_scope_last: "matches_scope p \<Longrightarrow> p \<noteq> [] \<and> last p = 47"
  by (cases p rule: matches_scope.cases) auto

lemma star_before_slash:
  assumes p: "p \<noteq> [] \<and> last p = (47::nat)" and q: "42 \<notin> set q"
    and e: "p @ q = pre @ 42 # post"
  shows "47 \<in> set post"
proof -
  from e obtain us where
    "(p = pre @ us \<and> us @ q = 42 # post) \<or> (p @ us = pre \<and> q = us @ 42 # post)"
    unfolding append_eq_append_conv2 by blast
  with q have u: "p = pre @ us" "us @ q = 42 # post" by auto
  from u(2) q obtain us' where us: "us = 42 # us'" "post = us' @ q"
    by (cases us) auto
  have "us' \<noteq> []"
  proof
    assume "us' = []"
    with u(1) us(1) have "last p = 42" by simp
    with p show False by simp
  qed
  then have "last us' = 47" using p u(1) us(1) by simp
  with \<open>us' \<noteq> []\<close> have "47 \<in> set us'" using last_in_set by metis
  then show ?thesis using us(2) by simp
qed

lemma isValidPackageName_scoped:
  "matches_scope p \<Longrightarrow> matches_pkg q \<Longrightarrow> isValidPackageName (p @ q)"
  unfolding isValidPackageName_split
  by (rule disjI2, rule exI [of _ "length p"]) simp

lemma matches_scope_build:
  "scope_first c \<Longrightarrow> list_all scope_rest cs \<Longrightarrow> matches_scope (64 # c # cs @ [47])"
  by simp

text \<open>
  Claim C9. A star is accepted in the scope segment at any position, the first one
  included: \<^verbatim>\<open>@*/pkg\<close> and \<^verbatim>\<open>@a*b/c\<close> are valid names, and so is every scoped name whose
  scope has a star first, or a star after any characters of the scope. It is never accepted
  in the package segment: in a valid name every star is followed by a slash further on, and
  no string that matches the package segment contains one.
\<close>

theorem star_in_scope_only:
  "isValidPackageName (js ''@*/pkg'') \<and> isValidPackageName (js ''@a*b/c'') \<and>
   (\<forall>pkg post. matches_pkg pkg \<and> list_all scope_rest post \<longrightarrow>
      isValidPackageName ([64, 42] @ post @ [47] @ pkg)) \<and>
   (\<forall>pkg c pre post. matches_pkg pkg \<and> scope_first c \<and> list_all scope_rest pre \<and>
        list_all scope_rest post \<longrightarrow>
      isValidPackageName ([64, c] @ pre @ [42] @ post @ [47] @ pkg)) \<and>
   (\<forall>s pre post. isValidPackageName s \<and> s = pre @ [42] @ post \<longrightarrow> 47 \<in> set post) \<and>
   (\<forall>s. matches_pkg s \<longrightarrow> 42 \<notin> set s)"
proof (intro conjI allI impI)
  show "isValidPackageName (js ''@*/pkg'')" by (simp add: eval_defs)
  show "isValidPackageName (js ''@a*b/c'')" by (simp add: eval_defs)
next
  fix pkg post
  assume a: "matches_pkg pkg \<and> list_all scope_rest post"
  have "scope_first 42" by (simp add: class_defs)
  then have "matches_scope (64 # 42 # post @ [47])"
    using a by (intro matches_scope_build) simp_all
  from isValidPackageName_scoped [OF this, of pkg] a
  show "isValidPackageName ([64, 42] @ post @ [47] @ pkg)" by simp
next
  fix pkg c pre post
  assume a: "matches_pkg pkg \<and> scope_first c \<and> list_all scope_rest pre \<and>
        list_all scope_rest post"
  have "scope_rest 42" by (simp add: class_defs)
  then have "matches_scope (64 # c # (pre @ [42] @ post) @ [47])"
    using a by (intro matches_scope_build) simp_all
  from isValidPackageName_scoped [OF this, of pkg] a
  show "isValidPackageName ([64, c] @ pre @ [42] @ post @ [47] @ pkg)" by simp
next
  fix s pre post
  assume a: "isValidPackageName s \<and> s = pre @ [42] @ post"
  then consider "matches_pkg s"
    | i where "i \<le> length s" "matches_scope (take i s)" "matches_pkg (drop i s)"
    unfolding isValidPackageName_split by blast
  then show "47 \<in> set post"
  proof cases
    case 1
    then show ?thesis using a matches_pkg_no_star_slash [of s] by simp
  next
    case 2
    have star: "42 \<notin> set (drop i s)" using 2(3) matches_pkg_no_star_slash by blast
    have "take i s @ drop i s = s" by (rule append_take_drop_id)
    also have "s = pre @ 42 # post" using a by simp
    finally have "take i s @ drop i s = pre @ 42 # post" .
    from star_before_slash [OF matches_scope_last [OF 2(2)] star this] show ?thesis .
  qed
next
  fix s assume "matches_pkg s"
  then show "42 \<notin> set s" using matches_pkg_no_star_slash by blast
qed

text \<open>
  The theorem at the name \<^verbatim>\<open>@ab*b/pkg\<close>.
\<close>

theorem star_in_scope_only_witness:
  "matches_pkg (js ''pkg'') \<and> scope_first 97 \<and> list_all scope_rest (js ''b'') \<and>
   isValidPackageName (js ''@ab*b/pkg'') \<and> 47 \<in> set (js ''b/pkg'')"
proof -
  have h: "matches_pkg (js ''pkg'') \<and> scope_first 97 \<and> list_all scope_rest (js ''b'') \<and>
     list_all scope_rest (js ''b'')"
    by (simp add: eval_defs)
  from star_in_scope_only have
    "matches_pkg (js ''pkg'') \<and> scope_first 97 \<and> list_all scope_rest (js ''b'') \<and>
       list_all scope_rest (js ''b'') \<longrightarrow>
     isValidPackageName ([64, 97] @ js ''b'' @ [42] @ js ''b'' @ [47] @ js ''pkg'')"
    by blast
  with h have v: "isValidPackageName ([64, 97] @ js ''b'' @ [42] @ js ''b'' @ [47] @ js ''pkg'')"
    by blast
  have eq: "[64, 97] @ js ''b'' @ [42] @ js ''b'' @ [47] @ js ''pkg'' = js ''@ab*b/pkg''"
    by (simp add: js_def)
  have "js ''@ab*b/pkg'' = js ''@ab'' @ [42] @ js ''b/pkg''" by (simp add: js_def)
  with star_in_scope_only v eq have "47 \<in> set (js ''b/pkg'')" by metis
  with h v eq show ?thesis by simp
qed

text \<open>
  Claim C6, as stated, fails: the slashes are stripped after the trimming, so that
  whitespace in front of trailing slashes survives the first application and not the
  second. For \<^verbatim>\<open>foo /\<close> the first result is \<^verbatim>\<open>foo \<close> (with the space) and the second is \<^verbatim>\<open>foo\<close>.
\<close>

theorem formatTargetDir_not_idempotent:
  "formatTargetDir (Some (js ''foo /'')) = Some (js ''foo '') \<and>
   formatTargetDir (formatTargetDir (Some (js ''foo /''))) = Some (js ''foo'') \<and>
   formatTargetDir (formatTargetDir (Some (js ''foo /''))) \<noteq> formatTargetDir (Some (js ''foo /''))"
  by (simp add: eval_defs)

lemma strip_trailing_slashes_last:
  "strip_trailing_slashes s \<noteq> [] \<Longrightarrow> last (strip_trailing_slashes s) \<noteq> 47"
  unfolding strip_trailing_slashes_def
  using hd_dropWhile [of "\<lambda>c. c = 47" "rev s"] by (simp add: last_rev)

lemma trim_hd: "trim s \<noteq> [] \<Longrightarrow> \<not> is_whitespace (hd (trim s))"
proof -
  assume a: "trim s \<noteq> []"
  define t where "t = dropWhile is_whitespace s"
  have t: "t = [] \<or> \<not> is_whitespace (hd t)"
    unfolding t_def using hd_dropWhile [of is_whitespace s] by blast
  have ts: "trim s = rev (dropWhile is_whitespace (rev t))"
    by (simp add: trim_def t_def)
  obtain u v where uv: "t = u @ v" "u = trim s"
    using ts takeWhile_dropWhile_id [of is_whitespace "rev t"]
    by (metis rev_append rev_rev_ident)
  with a have "hd t = hd (trim s)" by simp
  moreover have "t \<noteq> []" using uv a by simp
  ultimately show ?thesis using t by simp
qed

lemma strip_trailing_slashes_prefix:
  "\<exists>v. s = strip_trailing_slashes s @ v"
  unfolding strip_trailing_slashes_def
  using takeWhile_dropWhile_id [of "\<lambda>c. c = 47" "rev s"]
  by (metis rev_append rev_rev_ident)

lemma formatted_hd:
  assumes "strip_trailing_slashes (trim s) \<noteq> []"
  shows "\<not> is_whitespace (hd (strip_trailing_slashes (trim s)))"
proof -
  obtain v where v: "trim s = strip_trailing_slashes (trim s) @ v"
    using strip_trailing_slashes_prefix by blast
  then have "trim s \<noteq> []" using assms by auto
  then have "\<not> is_whitespace (hd (trim s))" by (rule trim_hd)
  moreover have "hd (trim s) = hd (strip_trailing_slashes (trim s))"
    using v assms by (metis hd_append2)
  ultimately show ?thesis by simp
qed

lemma strip_trailing_slashes_id:
  "s = [] \<or> last s \<noteq> 47 \<Longrightarrow> strip_trailing_slashes s = s"
  unfolding strip_trailing_slashes_def by (cases s rule: rev_cases) auto

lemma strip_trailing_slashes_length: "length (strip_trailing_slashes s) \<le> length s"
  unfolding strip_trailing_slashes_def
  using length_dropWhile_le [of "\<lambda>c. c = 47" "rev s"] by simp

lemma trim_shorter:
  "s \<noteq> [] \<Longrightarrow> is_whitespace (last s) \<Longrightarrow> length (trim s) < length s"
proof -
  assume a: "s \<noteq> []" "is_whitespace (last s)"
  define t where "t = dropWhile is_whitespace s"
  have le: "length t \<le> length s" unfolding t_def by (rule length_dropWhile_le)
  have ts: "trim s = rev (dropWhile is_whitespace (rev t))"
    by (simp add: trim_def t_def)
  show ?thesis
  proof (cases "t = []")
    case True
    then show ?thesis using a ts by simp
  next
    case False
    have "last t = last s" unfolding t_def using False a(1)
      by (metis dropWhile_last t_def dropWhile_eq_Nil_conv)
    then have "is_whitespace (hd (rev t))" using a(2) False by (simp add: hd_rev)
    then have "length (dropWhile is_whitespace (rev t)) < length (rev t)"
      using False by (cases "rev t") (auto simp: le_imp_less_Suc length_dropWhile_le)
    then show ?thesis using ts le by simp
  qed
qed

text \<open>
  Claim C6, amended. \<^verbatim>\<open>formatTargetDir\<close> returns \<^verbatim>\<open>undefined\<close> and the empty string unchanged and
  maps \<^verbatim>\<open>foo///\<close> to \<^verbatim>\<open>foo\<close>. For every string the result neither ends with a slash nor starts
  with whitespace, and applying the function to the result returns the result exactly when
  the result is empty or does not end with whitespace.
\<close>

theorem formatTargetDir_idempotent_iff:
  "formatTargetDir None = None \<and>
   formatTargetDir (Some []) = Some [] \<and>
   formatTargetDir (Some (js ''foo///'')) = Some (js ''foo'') \<and>
   (\<exists>y. formatTargetDir (Some x) = Some y \<and>
        (y \<noteq> [] \<longrightarrow> last y \<noteq> 47 \<and> \<not> is_whitespace (hd y)) \<and>
        (formatTargetDir (formatTargetDir (Some x)) = formatTargetDir (Some x)
           \<longleftrightarrow> y = [] \<or> \<not> is_whitespace (last y)))"
proof (intro conjI)
  show "formatTargetDir None = None" by (simp add: formatTargetDir_def)
  show "formatTargetDir (Some []) = Some []" by (simp add: eval_defs)
  show "formatTargetDir (Some (js ''foo///'')) = Some (js ''foo'')" by (simp add: eval_defs)
  define y where "y = strip_trailing_slashes (trim x)"
  have fx: "formatTargetDir (Some x) = Some y" by (simp add: formatTargetDir_def y_def)
  have fy: "formatTargetDir (Some y) = Some (strip_trailing_slashes (trim y))"
    by (simp add: formatTargetDir_def)
  have p1: "y \<noteq> [] \<longrightarrow> last y \<noteq> 47 \<and> \<not> is_whitespace (hd y)"
    unfolding y_def using strip_trailing_slashes_last formatted_hd by blast
  have p2: "strip_trailing_slashes (trim y) = y \<longleftrightarrow> y = [] \<or> \<not> is_whitespace (last y)"
  proof (cases "y = []")
    case True
    then show ?thesis by (simp add: trim_def strip_trailing_slashes_def)
  next
    case False
    with p1 have h: "\<not> is_whitespace (hd y)" and l: "last y \<noteq> 47" by simp_all
    show ?thesis
    proof (cases "is_whitespace (last y)")
      case True
      have "length (strip_trailing_slashes (trim y)) < length y"
        using trim_shorter [OF False True] strip_trailing_slashes_length [of "trim y"] by simp
      then show ?thesis using True False by auto
    next
      case nw: False
      have "dropWhile is_whitespace y = y" using h False by (cases y) auto
      moreover have "rev (dropWhile is_whitespace (rev y)) = y"
        using nw False by (cases y rule: rev_cases) auto
      ultimately have "trim y = y" by (simp add: trim_def)
      then show ?thesis using nw l strip_trailing_slashes_id [of y] by simp
    qed
  qed
  show "\<exists>y. formatTargetDir (Some x) = Some y \<and>
        (y \<noteq> [] \<longrightarrow> last y \<noteq> 47 \<and> \<not> is_whitespace (hd y)) \<and>
        (formatTargetDir (formatTargetDir (Some x)) = formatTargetDir (Some x)
           \<longleftrightarrow> y = [] \<or> \<not> is_whitespace (last y))"
    using fx fy p1 p2 by auto
qed

text \<open>
  The theorem at a string with whitespace around and two trailing slashes inside.
\<close>

theorem formatTargetDir_idempotent_iff_witness:
  "formatTargetDir (Some (js '' a/b// '')) = Some (js ''a/b'') \<and>
   formatTargetDir (formatTargetDir (Some (js '' a/b// ''))) = formatTargetDir (Some (js '' a/b// ''))"
proof -
  have e: "formatTargetDir (Some (js '' a/b// '')) = Some (js ''a/b'')" by (simp add: eval_defs)
  have l: "\<not> is_whitespace (last (js ''a/b''))" by (simp add: eval_defs)
  show ?thesis
    using formatTargetDir_idempotent_iff [of "js '' a/b// ''"] e l by auto
qed

text \<open>
  Claim C10. \<^verbatim>\<open>toValidPackageName\<close> does not always return a valid package name: for \<^verbatim>\<open>.\<close>, for
  \<^verbatim>\<open>_\<close> and for every string of whitespace it returns the empty string, which
  \<^verbatim>\<open>isValidPackageName\<close> rejects.
\<close>

theorem toValidPackageName_can_be_empty:
  assumes lc: "\<And>t. list_all (\<lambda>c. c < 128) t \<Longrightarrow> toLowerCase t = ascii_toLowerCase t"
  shows "toValidPackageName toLowerCase (js ''.'') = [] \<and>
         toValidPackageName toLowerCase (js ''_'') = [] \<and>
         (list_all is_whitespace s \<longrightarrow> toValidPackageName toLowerCase s = []) \<and>
         \<not> isValidPackageName []"
proof (intro conjI impI)
  have d: "toLowerCase (js ''.'') = js ''.''"
    using lc [of "js ''.''"] by (simp add: js_def ascii_toLowerCase_def)
  have td: "trim (js ''.'') = js ''.''" by (simp add: eval_defs)
  show "toValidPackageName toLowerCase (js ''.'') = []"
    unfolding toValidPackageName_def td d by (simp add: js_def class_defs is_whitespace_def)
  have u: "toLowerCase (js ''_'') = js ''_''"
    using lc [of "js ''_''"] by (simp add: js_def ascii_toLowerCase_def)
  have tu: "trim (js ''_'') = js ''_''" by (simp add: eval_defs)
  show "toValidPackageName toLowerCase (js ''_'') = []"
    unfolding toValidPackageName_def tu u by (simp add: js_def class_defs is_whitespace_def)
  have e: "toLowerCase [] = []" using lc [of "[]"] by (simp add: ascii_toLowerCase_def)
  show "toValidPackageName toLowerCase s = []" if "list_all is_whitespace s"
  proof -
    have h: "dropWhile is_whitespace s = []" using that by (simp add: list_all_iff)
    have "trim s = []" unfolding trim_def h by simp
    then show ?thesis unfolding toValidPackageName_def by (simp add: e)
  qed
  show "\<not> isValidPackageName []" by (simp add: isValidPackageName_def)
qed

text \<open>
  The theorem at a single space, with the ASCII lower-casing.
\<close>

theorem toValidPackageName_can_be_empty_witness:
  "list_all is_whitespace (js '' '') \<and>
   toValidPackageName ascii_toLowerCase (js '' '') = [] \<and>
   toValidPackageName ascii_toLowerCase (js ''.'') = [] \<and>
   \<not> isValidPackageName (toValidPackageName ascii_toLowerCase (js ''.''))"
proof -
  have w: "list_all is_whitespace (js '' '')" by (simp add: js_def is_whitespace_def)
  show ?thesis
    using w toValidPackageName_can_be_empty [of ascii_toLowerCase "js '' ''"] by simp
qed

section \<open>Properties of the file system utilities\<close>

lemma remove_in_last: "remove_in es f [] = filter (\<lambda>e. fst e \<noteq> f) es"
  by (induction es) auto

lemma lookup_replace_at:
  "lookup n p \<noteq> None \<Longrightarrow> lookup (replace_at n p d) p = Some d"
  "lookup_in es x xs \<noteq> None \<Longrightarrow> lookup_in (replace_in es x xs d) x xs = Some d"
  by (induction n p and es x xs rule: lookup_lookup_in.induct) auto

lemma replace_at_twice:
  "replace_at (replace_at n p d) p d' = replace_at n p d'"
  "replace_in (replace_in es x xs d) x xs d' = replace_in es x xs d'"
  by (induction n p and es x xs rule: lookup_lookup_in.induct) auto

lemma replace_at_same:
  "lookup n p = Some m \<Longrightarrow> replace_at n p m = n"
  "lookup_in es x xs = Some m \<Longrightarrow> replace_in es x xs m = es"
  by (induction n p and es x xs rule: lookup_lookup_in.induct) (auto split: if_splits)

lemma remove_missing:
  "lookup n p = None \<Longrightarrow> remove n p = n"
  "lookup_in es x xs = None \<Longrightarrow> remove_in es x xs = es"
  by (induction n p and es x xs rule: lookup_lookup_in.induct) (auto split: if_splits)

lemma remove_child:
  "lookup n p = Some (Dir ds) \<Longrightarrow>
     remove n (p @ [f]) = replace_at n p (Dir (filter (\<lambda>e. fst e \<noteq> f) ds))"
  "lookup_in es x xs = Some (Dir ds) \<Longrightarrow>
     remove_in es x (xs @ [f]) = replace_in es x xs (Dir (filter (\<lambda>e. fst e \<noteq> f) ds))"
  by (induction n p and es x xs rule: lookup_lookup_in.induct)
     (auto simp: remove_in_last split: if_splits)

lemma lookup_frame:
  "\<not> prefix p q \<Longrightarrow> \<not> prefix q p \<Longrightarrow> lookup (replace_at n p d) q = lookup n q"
  "\<not> prefix (x # xs) (y # ys) \<Longrightarrow> \<not> prefix (y # ys) (x # xs) \<Longrightarrow>
     lookup_in (replace_in es x xs d) y ys = lookup_in es y ys"
proof (induction n p d and es x xs d arbitrary: q and y ys rule: replace_at_replace_in.induct)
  case (1 n d)
  then show ?case by simp
next
  case (2 c x xs d)
  then show ?case by (cases q) auto
next
  case (3 es x xs d)
  then show ?case by (cases q) auto
next
  case (4 x xs d)
  then show ?case by simp
next
  case (5 n c es x xs d)
  then show ?case by auto
qed

lemma lookup_append:
  "lookup n (p @ q) = (case lookup n p of None \<Rightarrow> None | Some m \<Rightarrow> lookup m q)"
  "lookup_in es x (xs @ q) = (case lookup_in es x xs of None \<Rightarrow> None | Some m \<Rightarrow> lookup m q)"
  by (induction n p and es x xs rule: lookup_lookup_in.induct) (auto split: option.splits)

lemma lookup_in_None: "lookup_in es f [] = None \<longleftrightarrow> f \<notin> fst ` set es"
  by (induction es) (auto split: if_splits)

lemma stat_lookup:
  "lookup n p = Some m \<Longrightarrow> stat n p = Inr m"
  "lookup_in es x xs = Some m \<Longrightarrow> stat_in es x xs = Inr m"
  by (induction n p and es x xs rule: lookup_lookup_in.induct) (auto split: if_splits)

lemma stat_in_child:
  "stat_in ds f [] = (case lookup_in ds f [] of None \<Rightarrow> Inl ENOENT | Some m \<Rightarrow> Inr m)"
  by (induction ds) auto

lemma stat_child:
  "lookup n p = Some (Dir ds) \<Longrightarrow>
     stat n (p @ [f]) = (case lookup n (p @ [f]) of None \<Rightarrow> Inl ENOENT | Some m \<Rightarrow> Inr m)"
  "lookup_in es x xs = Some (Dir ds) \<Longrightarrow>
     stat_in es x (xs @ [f]) =
       (case lookup_in es x (xs @ [f]) of None \<Rightarrow> Inl ENOENT | Some m \<Rightarrow> Inr m)"
  by (induction n p and es x xs rule: lookup_lookup_in.induct)
     (auto simp: stat_in_child split: if_splits)

lemma rmSync_child:
  assumes "lookup n p = Some (Dir ds)"
  shows "rmSync n (p @ [f]) = Inr (replace_at n p (Dir (filter (\<lambda>e. fst e \<noteq> f) ds)))"
proof (cases "lookup n (p @ [f])")
  case None
  then have "f \<notin> fst ` set ds"
    using assms by (simp add: lookup_append lookup_in_None)
  then have "filter (\<lambda>e. fst e \<noteq> f) ds = ds" by (auto simp: filter_id_conv)
  moreover have "stat n (p @ [f]) = Inl ENOENT"
    using stat_child(1) [OF assms, of f] None by simp
  ultimately show ?thesis using assms by (simp add: rmSync_def replace_at_same)
next
  case (Some m)
  then have "stat n (p @ [f]) = Inr m" by (rule stat_lookup)
  then show ?thesis using assms by (simp add: rmSync_def remove_child)
qed

lemma emptyDir_loop_result:
  assumes "lookup n p \<noteq> None"
  shows "emptyDir_loop p files (replace_at n p (Dir ds)) =
     Inr (replace_at n p (Dir (filter (\<lambda>e. fst e = js ''.git'' \<or> fst e \<notin> set files) ds)))"
proof (induction files arbitrary: ds)
  case Nil
  then show ?case by simp
next
  case (Cons nm files)
  show ?case
  proof (cases "nm = js ''.git''")
    case True
    have "filter (\<lambda>e. fst e = js ''.git'' \<or> fst e \<notin> set (nm # files)) ds =
          filter (\<lambda>e. fst e = js ''.git'' \<or> fst e \<notin> set files) ds"
      using True by (intro filter_cong) auto
    then show ?thesis using True Cons.IH by simp
  next
    case False
    have l: "lookup (replace_at n p (Dir ds)) p = Some (Dir ds)"
      using assms by (rule lookup_replace_at)
    have f: "filter (\<lambda>e. fst e = js ''.git'' \<or> fst e \<notin> set files) (filter (\<lambda>e. fst e \<noteq> nm) ds)
        = filter (\<lambda>e. fst e = js ''.git'' \<or> fst e \<notin> set (nm # files)) ds"
      using False by (auto intro: filter_cong)
    show ?thesis
      using False by (simp add: rmSync_child [OF l] replace_at_twice Cons.IH f del: filter_filter)
  qed
qed

text \<open>
  Claim C7. For a path that is a directory, \<^verbatim>\<open>isEmpty\<close> returns true exactly when the
  directory has no entry or has one entry, named \<^verbatim>\<open>.git\<close>: true for a directory that holds
  only \<^verbatim>\<open>.git\<close>, false as soon as another entry is present.
\<close>

theorem isEmpty_spec:
  "lookup fs p = Some (Dir es) \<Longrightarrow>
     isEmpty fs p = Inr (es = [] \<or> (\<exists>n. es = [(js ''.git'', n)])) \<and>
     (es = [] \<longrightarrow> isEmpty fs p = Inr True) \<and>
     (map fst es = [js ''.git''] \<longrightarrow> isEmpty fs p = Inr True) \<and>
     ((\<exists>e \<in> set es. fst e \<noteq> js ''.git'') \<longrightarrow> isEmpty fs p = Inr False) \<and>
     (length es > 1 \<longrightarrow> isEmpty fs p = Inr False)"
proof -
  assume d: "lookup fs p = Some (Dir es)"
  have r: "isEmpty fs p = Inr (length es = 0 \<or> (length es = 1 \<and> fst (es ! 0) = js ''.git''))"
    using d stat_lookup(1) [OF d] by (auto simp: isEmpty_def readdirSync_def)
  have "(length es = 0 \<or> (length es = 1 \<and> fst (es ! 0) = js ''.git'')) \<longleftrightarrow>
        (es = [] \<or> (\<exists>n. es = [(js ''.git'', n)]))"
    by (cases es; cases "tl es") auto
  with r have 1: "isEmpty fs p = Inr (es = [] \<or> (\<exists>n. es = [(js ''.git'', n)]))" by simp
  show ?thesis unfolding 1 by (cases es; cases "tl es") auto
qed

text \<open>
  The theorem at a directory that holds only \<^verbatim>\<open>.git\<close> and at one that also holds a file.
\<close>

theorem isEmpty_spec_witness:
  "lookup (Dir [(js ''demo'', Dir [(js ''.git'', Dir [])])]) [js ''demo''] =
     Some (Dir [(js ''.git'', Dir [])]) \<and>
   isEmpty (Dir [(js ''demo'', Dir [(js ''.git'', Dir [])])]) [js ''demo''] = Inr True \<and>
   isEmpty (Dir [(js ''demo'', Dir [(js ''.git'', Dir []), (js ''a.txt'', File [])])])
     [js ''demo''] = Inr False"
proof -
  have l1: "lookup (Dir [(js ''demo'', Dir [(js ''.git'', Dir [])])]) [js ''demo''] =
     Some (Dir [(js ''.git'', Dir [])])"
    by simp
  have l2: "lookup (Dir [(js ''demo'', Dir [(js ''.git'', Dir []), (js ''a.txt'', File [])])])
     [js ''demo''] = Some (Dir [(js ''.git'', Dir []), (js ''a.txt'', File [])])"
    by simp
  show ?thesis
    using l1 isEmpty_spec [OF l1] isEmpty_spec [OF l2] by simp
qed

text \<open>
  Claim C8. \<^verbatim>\<open>emptyDir\<close> changes nothing and throws nothing when the path does not exist.
  For a directory it throws nothing and leaves the tree with that directory reduced to its
  entry \<^verbatim>\<open>.git\<close>: every other entry is gone, whatever it contains, what is under \<^verbatim>\<open>.git\<close>
  is as before, and so is every path outside the directory.
\<close>

theorem emptyDir_spec:
  "(\<not> existsSync fs dir \<longrightarrow> emptyDir fs dir = Inr fs) \<and>
   (lookup fs dir = Some (Dir es) \<longrightarrow>
      (\<exists>fs'. emptyDir fs dir = Inr fs' \<and>
         fs' = replace_at fs dir (Dir (filter (\<lambda>e. fst e = js ''.git'') es)) \<and>
         lookup fs' dir = Some (Dir (filter (\<lambda>e. fst e = js ''.git'') es)) \<and>
         (\<forall>f. f \<noteq> js ''.git'' \<longrightarrow> lookup fs' (dir @ [f]) = None) \<and>
         (\<forall>r. lookup fs' (dir @ js ''.git'' # r) = lookup fs (dir @ js ''.git'' # r)) \<and>
         (\<forall>q. \<not> prefix dir q \<and> \<not> prefix q dir \<longrightarrow> lookup fs' q = lookup fs q)))"
proof (intro conjI impI)
  show "emptyDir fs dir = Inr fs" if "\<not> existsSync fs dir"
    using that by (simp add: emptyDir_def)
next
  assume d: "lookup fs dir = Some (Dir es)"
  let ?git = "filter (\<lambda>e. fst e = js ''.git'') es"
  let ?fs' = "replace_at fs dir (Dir ?git)"
  have ne: "lookup fs dir \<noteq> None" using d by simp
  have "filter (\<lambda>e. fst e = js ''.git'' \<or> fst e \<notin> set (map fst es)) es = ?git"
    by (intro filter_cong) auto
  then have "emptyDir_loop dir (map fst es) (replace_at fs dir (Dir es)) = Inr ?fs'"
    using emptyDir_loop_result [OF ne, of "map fst es" es] by simp
  then have e: "emptyDir fs dir = Inr ?fs'"
    using d stat_lookup(1) [OF d]
    by (simp add: emptyDir_def existsSync_def readdirSync_def replace_at_same)
  have l: "lookup ?fs' dir = Some (Dir ?git)" using ne by (rule lookup_replace_at)
  have c: "lookup ?fs' (dir @ [f]) = None" if "f \<noteq> js ''.git''" for f
    using that by (auto simp: lookup_append l lookup_in_None)
  have lg: "lookup_in (filter (\<lambda>e. fst e = g) ds) g r = lookup_in ds g r" for ds g r
    by (induction ds) auto
  have g: "lookup ?fs' (dir @ js ''.git'' # r) = lookup fs (dir @ js ''.git'' # r)" for r
    by (simp add: lookup_append l d lg)
  have fr: "lookup ?fs' q = lookup fs q" if "\<not> prefix dir q \<and> \<not> prefix q dir" for q
    using that by (simp add: lookup_frame)
  show "\<exists>fs'. emptyDir fs dir = Inr fs' \<and>
         fs' = replace_at fs dir (Dir (filter (\<lambda>e. fst e = js ''.git'') es)) \<and>
         lookup fs' dir = Some (Dir (filter (\<lambda>e. fst e = js ''.git'') es)) \<and>
         (\<forall>f. f \<noteq> js ''.git'' \<longrightarrow> lookup fs' (dir @ [f]) = None) \<and>
         (\<forall>r. lookup fs' (dir @ js ''.git'' # r) = lookup fs (dir @ js ''.git'' # r)) \<and>
         (\<forall>q. \<not> prefix dir q \<and> \<not> prefix q dir \<longrightarrow> lookup fs' q = lookup fs q)"
    using e l c g fr by blast
qed

text \<open>
  The theorem at a directory with \<^verbatim>\<open>.git\<close>, a directory that is not empty and a file, beside
  another file, and at a path that does not exist.
\<close>

theorem emptyDir_spec_witness:
  "emptyDir
     (Dir [(js ''demo'',
            Dir [(js ''.git'', Dir [(js ''HEAD'', File (js ''ref''))]),
                 (js ''src'', Dir [(js ''a.js'', File (js ''x''))]),
                 (js ''README'', File (js ''y''))]),
           (js ''other'', File (js ''z''))])
     [js ''demo''] =
   Inr (Dir [(js ''demo'', Dir [(js ''.git'', Dir [(js ''HEAD'', File (js ''ref''))])]),
             (js ''other'', File (js ''z''))]) \<and>
   emptyDir (Dir [(js ''other'', File (js ''z''))]) [js ''demo''] =
     Inr (Dir [(js ''other'', File (js ''z''))])"
proof -
  let ?es = "[(js ''.git'', Dir [(js ''HEAD'', File (js ''ref''))]),
              (js ''src'', Dir [(js ''a.js'', File (js ''x''))]),
              (js ''README'', File (js ''y''))]"
  let ?fs = "Dir [(js ''demo'', Dir ?es), (js ''other'', File (js ''z''))]"
  have l: "lookup ?fs [js ''demo''] = Some (Dir ?es)" by simp
  have n: "\<not> existsSync (Dir [(js ''other'', File (js ''z''))]) [js ''demo'']"
    by (simp add: existsSync_def js_def)
  have r: "replace_at ?fs [js ''demo''] (Dir (filter (\<lambda>e. fst e = js ''.git'') ?es)) =
     Dir [(js ''demo'', Dir [(js ''.git'', Dir [(js ''HEAD'', File (js ''ref''))])]),
          (js ''other'', File (js ''z''))]"
    by (simp add: js_def)
  show ?thesis
    using emptyDir_spec [of ?fs "[js ''demo'']" ?es] l r
      emptyDir_spec [of "Dir [(js ''other'', File (js ''z''))]" "[js ''demo'']" "[]"] n
    by auto
qed

section \<open>Properties of the manifest step\<close>

lemma name_not_index: "\<not> is_array_index (js ''name'')"
  by (simp add: is_array_index_def js_def)

lemma set_property_keys:
  "\<not> is_array_index k \<Longrightarrow>
     map fst (set_property k v ps) = (if k \<in> set (map fst ps) then map fst ps else map fst ps @ [k])"
proof (induction ps)
  case Nil
  then show ?case by simp
next
  case (Cons p ps)
  then show ?case by (cases p) (simp add: listed_before_def)
qed

lemma set_property_others:
  "\<not> is_array_index k \<Longrightarrow>
     filter (\<lambda>m. fst m \<noteq> k) (set_property k v ps) = filter (\<lambda>m. fst m \<noteq> k) ps"
  by (induction ps) (auto simp: listed_before_def)

lemma set_property_value:
  "\<not> is_array_index k \<Longrightarrow> map_of (set_property k v ps) k = Some v"
  by (induction ps) (auto simp: listed_before_def)

lemma set_property_map:
  "set_property k (f v) (map (map_prod id f) ps) = map (map_prod id f) (set_property k v ps)"
  by (induction ps) auto

lemma set_property_key_set: "fst ` set (set_property k v ps) = insert k (fst ` set ps)"
proof (induction ps)
  case Nil
  then show ?case by simp
next
  case (Cons p ps)
  then show ?case by (cases p) (simp add: insert_commute)
qed

lemma set_property_values: "snd ` set (set_property k v ps) \<subseteq> insert v (snd ` set ps)"
proof (induction ps)
  case Nil
  then show ?case by simp
next
  case (Cons p ps)
  then show ?case by (cases p) (simp add: subset_iff, blast)
qed

lemma listed_before_trans:
  "listed_before k k' \<Longrightarrow> \<not> listed_before b k' \<Longrightarrow> \<not> listed_before b k"
  by (auto simp: listed_before_def)

lemma set_property_ordered:
  "ordered (map fst ps) \<Longrightarrow> ordered (map fst (set_property k v ps))"
proof (induction ps)
  case Nil
  then show ?case by (simp add: ordered_def)
next
  case (Cons p ps)
  obtain k' v' where p: "p = (k', v')" by (cases p)
  have ih: "ordered (map fst (set_property k v ps))"
    using Cons by (simp add: ordered_def)
  show ?case
  proof (cases "k' = k")
    case True
    then show ?thesis using Cons.prems p by (simp add: ordered_def)
  next
    case ne: False
    show ?thesis
    proof (cases "listed_before k k'")
      case True
      have "k \<notin> fst ` set ps"
      proof
        assume "k \<in> fst ` set ps"
        then have "\<not> listed_before k k'" using Cons.prems p by (auto simp: ordered_def)
        with True show False by simp
      qed
      moreover have "\<not> listed_before k' k" using True by (auto simp: listed_before_def)
      moreover have "\<forall>b \<in> fst ` set ps. \<not> listed_before b k"
        using Cons.prems p True by (auto simp: ordered_def dest: listed_before_trans)
      ultimately show ?thesis using Cons.prems p ne True by (auto simp: ordered_def)
    next
      case False
      have "fst ` set (set_property k v ps) = insert k (fst ` set ps)"
        by (rule set_property_key_set)
      then show ?thesis using Cons.prems p ne False ih
        by (auto simp: ordered_def)
    qed
  qed
qed

lemma set_property_append:
  "ordered (map fst (acc @ [(k, v)])) \<Longrightarrow> set_property k v acc = acc @ [(k, v)]"
  by (induction acc) (auto simp: ordered_def)

lemma ordered_prefix: "ordered (xs @ ys) \<Longrightarrow> ordered xs"
  by (simp add: ordered_def sorted_wrt_append)

lemma foldl_set_property_ordered:
  "ordered (map fst (acc @ ms)) \<Longrightarrow>
     foldl (\<lambda>ps m. set_property (fst m) (snd m) ps) acc ms = acc @ ms"
proof (induction ms arbitrary: acc)
  case Nil
  then show ?case by simp
next
  case (Cons m ms)
  have o: "ordered (map fst ((acc @ [m]) @ ms))" using Cons.prems by simp
  then have "ordered (map fst (acc @ [(fst m, snd m)]))"
    using ordered_prefix [of "map fst (acc @ [m])" "map fst ms"] by simp
  then have "set_property (fst m) (snd m) acc = acc @ [m]"
    using set_property_append [of acc "fst m" "snd m"] by simp
  then show ?case using Cons.IH [OF o] by simp
qed

lemma create_properties_ordered_id:
  "ordered (map fst ps) \<Longrightarrow> create_properties ps = ps"
  unfolding create_properties_def using foldl_set_property_ordered [of "[]" ps] by simp

lemma foldl_set_property_inv:
  "ordered (map fst acc) \<Longrightarrow>
     ordered (map fst (foldl (\<lambda>ps m. set_property (fst m) (snd m) ps) acc ms)) \<and>
     snd ` set (foldl (\<lambda>ps m. set_property (fst m) (snd m) ps) acc ms)
       \<subseteq> snd ` set acc \<union> snd ` set ms"
proof (induction ms arbitrary: acc)
  case Nil
  then show ?case by simp
next
  case (Cons m ms)
  have "ordered (map fst (set_property (fst m) (snd m) acc))"
    using Cons.prems by (rule set_property_ordered)
  from Cons.IH [OF this] set_property_values [of "fst m" "snd m" acc]
  show ?case by (simp add: subset_iff) blast
qed

lemma create_properties_inv:
  "ordered (map fst (create_properties ms)) \<and> snd ` set (create_properties ms) \<subseteq> snd ` set ms"
  unfolding create_properties_def
  using foldl_set_property_inv [of "[]" ms] by (simp add: ordered_def)

lemma number_roundtrip:
  "finite_number x \<Longrightarrow> stringify_number x = JNumber x"
  by (cases x) auto

lemma JSON_parse_canonical: "finite_numbers d \<Longrightarrow> canonical (JSON_parse d)"
proof (induction d)
  case (JObject ms)
  let ?ps = "map (map_prod id JSON_parse) ms"
  have "canonical (JSON_parse v)" if "m \<in> set ms" "v = snd m" for m v
  proof -
    have "finite_numbers v" using that JObject.prems by simp
    then show ?thesis using JObject.IH [of m v] that by (cases m) (simp add: snds.simps)
  qed
  then have "\<forall>v \<in> snd ` set ?ps. canonical v" by force
  then have "\<forall>v \<in> snd ` set (create_properties ?ps). canonical v"
    using create_properties_inv [of ?ps] by blast
  then show ?case using create_properties_inv [of ?ps] by auto
qed auto

lemma parse_stringify: "canonical v \<Longrightarrow> JSON_parse (JSON_stringify v) = v"
proof (induction v)
  case (VNumber x)
  then show ?case by (simp add: number_roundtrip)
next
  case (VArray xs)
  then show ?case by (auto simp: map_idI)
next
  case (VObject ps)
  have "map_prod id JSON_parse (map_prod id JSON_stringify p) = p" if "p \<in> set ps" for p
  proof -
    obtain k v where p: "p = (k, v)" by (cases p)
    have "canonical v" using that VObject.prems p by force
    then have "JSON_parse (JSON_stringify v) = v"
      using VObject.IH [of p v] that p by (simp add: snds.simps)
    then show ?thesis using p by simp
  qed
  then have "map (map_prod id JSON_parse) (map (map_prod id JSON_stringify) ps) = ps"
    by (simp add: map_idI)
  then show ?case using VObject.prems by (simp add: create_properties_ordered_id del: map_map)
qed auto

lemma ordered_non_index:
  "distinct ks \<Longrightarrow> \<forall>k \<in> set ks. \<not> is_array_index k \<Longrightarrow> ordered ks"
  by (simp add: ordered_def sorted_wrt_iff_nth_less listed_before_def)

lemma plain_roundtrip:
  "plain d \<Longrightarrow> finite_numbers d \<Longrightarrow> JSON_stringify (JSON_parse d) = d"
proof (induction d)
  case (JNumber x)
  then show ?case by (simp add: number_roundtrip)
next
  case (JArray xs)
  then show ?case by (auto simp: map_idI)
next
  case (JObject ms)
  let ?ps = "map (map_prod id JSON_parse) ms"
  have "ordered (map fst ?ps)"
    using JObject.prems by (intro ordered_non_index) (auto simp: comp_def)
  then have c: "create_properties ?ps = ?ps" by (rule create_properties_ordered_id)
  have "map_prod id JSON_stringify (map_prod id JSON_parse m) = m" if "m \<in> set ms" for m
  proof -
    obtain k v where m: "m = (k, v)" by (cases m)
    have "plain v" using that JObject.prems m by force
    moreover have "finite_numbers v" using that JObject.prems m by force
    ultimately have "JSON_stringify (JSON_parse v) = v"
      using JObject.IH [of m v] that m by (simp add: snds.simps)
    then show ?thesis using m by simp
  qed
  then have "map (map_prod id JSON_stringify) ?ps = ms" by (simp add: map_idI)
  then show ?case by (simp add: c del: map_map)
qed auto

lemma rewrite_manifest_object:
  assumes "finite_numbers (JObject ms)"
  shows "\<exists>ps. JSON_parse (JObject ms) = VObject ps \<and> canonical (VObject ps) \<and>
     rewrite_manifest (JObject ms) packageName projectName =
       Inr (JObject (map (map_prod id JSON_stringify)
         (set_property (js ''name'') (VString (effective_name packageName projectName)) ps)))"
proof -
  have "canonical (JSON_parse (JObject ms))" using assms by (rule JSON_parse_canonical)
  then show ?thesis by (simp add: rewrite_manifest_def)
qed

text \<open>
  Claim C2, as stated, fails: an object lists its array-index keys first, so the manifest
  \<^verbatim>\<open>{"b": true, "1": true}\<close> is written with the key \<^verbatim>\<open>1\<close> before the key \<^verbatim>\<open>b\<close>: the keys
  written before \<^verbatim>\<open>name\<close> are not the keys of the input in their order.
\<close>

theorem manifest_key_order_counterexample:
  "rewrite_manifest (JObject [(js ''b'', JBool True), (js ''1'', JBool True)]) None (js ''demo'') =
     Inr (JObject [(js ''1'', JBool True), (js ''b'', JBool True),
                   (js ''name'', JString (js ''demo''))]) \<and>
   map fst [(js ''1'', JBool True), (js ''b'', JBool True)] \<noteq>
   map fst [(js ''b'', JBool True), (js ''1'', JBool True)]"
  by (simp add: rewrite_manifest_def create_properties_def effective_name_def
      listed_before_def is_array_index_def digits_value_def js_def)

text \<open>
  Claim C2, amended. For every manifest that is a JSON object and whose numerals all denote
  finite doubles other than minus zero, the document written parses
  back to the object parsed from the input with its property \<^verbatim>\<open>name\<close> set: the name is the
  package name supplied or, if none was, the project name, and the other properties are
  the same, in the same order. If moreover the keys of every object of the manifest are
  distinct and none is an array index, the document written has the members of the input
  in the order of the input, with the value of \<^verbatim>\<open>name\<close> replaced, or with \<^verbatim>\<open>name\<close> added as
  the last member when the input has none.
\<close>

theorem manifest_name_rewrite:
  assumes fin: "finite_numbers (JObject ms)"
  shows "\<exists>out ps.
     rewrite_manifest (JObject ms) packageName projectName = Inr (JObject out) \<and>
     JSON_parse (JObject ms) = VObject ps \<and>
     JSON_parse (JObject out) =
       VObject (set_property (js ''name'') (VString (effective_name packageName projectName)) ps) \<and>
     map_of (set_property (js ''name'') (VString (effective_name packageName projectName)) ps)
       (js ''name'') = Some (VString (effective_name packageName projectName)) \<and>
     filter (\<lambda>p. fst p \<noteq> js ''name'')
       (set_property (js ''name'') (VString (effective_name packageName projectName)) ps) =
     filter (\<lambda>p. fst p \<noteq> js ''name'') ps \<and>
     (plain (JObject ms) \<longrightarrow>
        map fst out =
          (if js ''name'' \<in> set (map fst ms) then map fst ms else map fst ms @ [js ''name'']) \<and>
        filter (\<lambda>m. fst m \<noteq> js ''name'') out = filter (\<lambda>m. fst m \<noteq> js ''name'') ms \<and>
        map_of out (js ''name'') = Some (JString (effective_name packageName projectName))) \<and>
     effective_name None projectName = projectName \<and>
     (\<forall>s. s \<noteq> [] \<longrightarrow> effective_name (Some s) projectName = s)"
proof -
  let ?n = "effective_name packageName projectName"
  obtain ps where ps: "JSON_parse (JObject ms) = VObject ps" "canonical (VObject ps)"
    and rw: "rewrite_manifest (JObject ms) packageName projectName =
       Inr (JObject (map (map_prod id JSON_stringify) (set_property (js ''name'') (VString ?n) ps)))"
    using rewrite_manifest_object [OF fin, of packageName projectName] by blast
  let ?ps' = "set_property (js ''name'') (VString ?n) ps"
  let ?out = "map (map_prod id JSON_stringify) ?ps'"
  have "ordered (map fst ?ps')" using ps(2) by (simp add: set_property_ordered)
  moreover have "\<forall>p \<in> set ?ps'. canonical (snd p)"
  proof
    fix p assume p: "p \<in> set (set_property (js ''name'') (VString ?n) ps)"
    from p have "snd p \<in> insert (VString ?n) (snd ` set ps)"
      using set_property_values [of "js ''name''" "VString ?n" ps] by blast
    then show "canonical (snd p)" using ps(2) by auto
  qed
  ultimately have "canonical (VObject ?ps')" by simp
  then have pb: "JSON_parse (JSON_stringify (VObject ?ps')) = VObject ?ps'"
    by (rule parse_stringify)
  have v: "map_of ?ps' (js ''name'') = Some (VString ?n)"
    by (rule set_property_value [OF name_not_index])
  have o: "filter (\<lambda>p. fst p \<noteq> js ''name'') ?ps' = filter (\<lambda>p. fst p \<noteq> js ''name'') ps"
    by (rule set_property_others [OF name_not_index])
  have pl: "map fst ?out =
          (if js ''name'' \<in> set (map fst ms) then map fst ms else map fst ms @ [js ''name'']) \<and>
        filter (\<lambda>m. fst m \<noteq> js ''name'') ?out = filter (\<lambda>m. fst m \<noteq> js ''name'') ms \<and>
        map_of ?out (js ''name'') = Some (JString ?n)" if "plain (JObject ms)"
  proof -
    have "JSON_stringify (JSON_parse (JObject ms)) = JObject ms"
      using that fin by (rule plain_roundtrip)
    then have ms: "map (map_prod id JSON_stringify) ps = ms" using ps(1) by simp
    have "?out = set_property (js ''name'') (JSON_stringify (VString ?n))
                   (map (map_prod id JSON_stringify) ps)"
      by (simp only: set_property_map)
    then have out: "?out = set_property (js ''name'') (JString ?n) ms" using ms by simp
    show ?thesis
      unfolding out
      using set_property_keys [OF name_not_index, of "JString ?n" ms]
        set_property_others [OF name_not_index, of "JString ?n" ms]
        set_property_value [OF name_not_index, of "JString ?n" ms]
      by simp
  qed
  have e: "effective_name None projectName = projectName \<and>
     (\<forall>s. s \<noteq> [] \<longrightarrow> effective_name (Some s) projectName = s)"
    by (simp add: effective_name_def)
  from rw ps(1) pb v o pl e show ?thesis
    by (intro exI [of _ ?out] exI [of _ ps]) (simp del: map_map)
qed

text \<open>
  The theorem at a manifest with a name, a version, a port and scripts, and the package
  name \<^verbatim>\<open>demo\<close>.
\<close>

theorem manifest_name_rewrite_witness:
  "finite_numbers (JObject [(js ''name'', JString (js ''template'')),
                            (js ''version'', JString (js ''0.0.0'')),
                            (js ''port'', JNumber (NumFinite (5173 :: nat))),
                            (js ''scripts'', JObject [(js ''dev'', JString (js ''vite''))])]) \<and>
   plain (JObject [(js ''name'', JString (js ''template'')),
                   (js ''version'', JString (js ''0.0.0'')),
                   (js ''port'', JNumber (NumFinite (5173 :: nat))),
                   (js ''scripts'', JObject [(js ''dev'', JString (js ''vite''))])]) \<and>
   rewrite_manifest
     (JObject [(js ''name'', JString (js ''template'')),
               (js ''version'', JString (js ''0.0.0'')),
               (js ''port'', JNumber (NumFinite (5173 :: nat))),
               (js ''scripts'', JObject [(js ''dev'', JString (js ''vite''))])])
     (Some (js ''demo'')) (js ''dir'') =
   Inr (JObject [(js ''name'', JString (js ''demo'')),
                 (js ''version'', JString (js ''0.0.0'')),
                 (js ''port'', JNumber (NumFinite 5173)),
                 (js ''scripts'', JObject [(js ''dev'', JString (js ''vite''))])])"
proof -
  let ?ms = "[(js ''name'', JString (js ''template'')),
              (js ''version'', JString (js ''0.0.0'')),
              (js ''port'', JNumber (NumFinite (5173 :: nat))),
              (js ''scripts'', JObject [(js ''dev'', JString (js ''vite''))])]"
  have f: "finite_numbers (JObject ?ms)" by simp
  have p: "plain (JObject ?ms)"
    by (simp add: is_array_index_def js_def)
  have r: "rewrite_manifest (JObject ?ms) (Some (js ''demo'')) (js ''dir'') =
     Inr (JObject [(js ''name'', JString (js ''demo'')),
                   (js ''version'', JString (js ''0.0.0'')),
                   (js ''port'', JNumber (NumFinite 5173)),
                   (js ''scripts'', JObject [(js ''dev'', JString (js ''vite''))])])"
    by (simp add: rewrite_manifest_def create_properties_def effective_name_def
        listed_before_def is_array_index_def js_def)
  from manifest_name_rewrite [OF f, of "Some (js ''demo'')" "js ''dir''"] f p r
  show ?thesis by simp
qed

text \<open>
  Outside that condition a number is not written as it was read: a numeral that overflows
  is written \<^verbatim>\<open>null\<close>, and \<^verbatim>\<open>-0\<close> is written \<^verbatim>\<open>0\<close>.
\<close>

lemma manifest_overflow_written_null:
  "rewrite_manifest (JObject [(js ''a'', JNumber NumInfinity), (js ''name'', JString (js ''t''))])
     None (js ''demo'') =
     Inr (JObject [(js ''a'', JNull), (js ''name'', JString (js ''demo''))]) \<and>
   rewrite_manifest (JObject [(js ''a'', JNumber NumMinusZero), (js ''name'', JString (js ''t''))])
     None (js ''demo'') =
     Inr (JObject [(js ''a'', JNumber NumZero), (js ''name'', JString (js ''demo''))])"
  by (simp add: rewrite_manifest_def create_properties_def effective_name_def
      listed_before_def is_array_index_def js_def)

section \<open>Properties of the workflow\<close>

lemmas inv_defs = outcome_ok_def undecided_def before_check_def choices_ok_def no_abort_def
  declined_def show_prompt_def

lemma outcome_ok_and_then:
  "outcome_ok red P r \<Longrightarrow> (\<And>st. P st \<Longrightarrow> outcome_ok red Q (f st)) \<Longrightarrow>
     outcome_ok red Q (and_then r f)"
proof (cases r)
  case (Inl a)
  assume "outcome_ok red P r"
  then show ?thesis using Inl by (simp add: outcome_ok_def and_then_def)
next
  case (Inr st)
  assume "outcome_ok red P r" and step: "\<And>st. P st \<Longrightarrow> outcome_ok red Q (f st)"
  then have "P st" using Inr by (simp add: outcome_ok_def)
  then show ?thesis using step [of st] Inr by (simp add: and_then_def)
qed

lemma ask_projectName_ok:
  "undecided st \<Longrightarrow> outcome_ok red undecided (ask_projectName red arg u st)"
  unfolding ask_projectName_def
  by (auto simp: inv_defs Let_def split: reply.splits)

lemma ask_overwrite_ok:
  "undecided st \<Longrightarrow> outcome_ok red before_check (ask_overwrite red fs cwd u st)"
  unfolding ask_overwrite_def
  by (auto simp: inv_defs Let_def split: reply.splits sum.splits bool.splits)

lemma overwriteChecker_ok:
  "before_check st \<Longrightarrow> outcome_ok red undecided (overwriteChecker red st)"
  unfolding overwriteChecker_def
  by (auto simp: inv_defs)

lemma ask_packageName_ok:
  "undecided st \<Longrightarrow> outcome_ok red undecided (ask_packageName lc red cwd u st)"
  unfolding ask_packageName_def
  by (auto simp: inv_defs Let_def split: option.splits)

lemma selected_in: "selected xs i = Some x \<Longrightarrow> x \<in> set xs"
  by (auto simp: selected_def split: if_splits)

lemma ask_framework_ok:
  "undecided st \<Longrightarrow> outcome_ok red undecided (ask_framework red arg u st)"
  unfolding ask_framework_def
  by (auto simp: inv_defs Let_def split: reply.splits option.splits dest: selected_in)

lemma variants_in_TEMPLATES: "f \<in> set LAYOUTS \<Longrightarrow> v \<in> set (variants f) \<Longrightarrow> name v \<in> set TEMPLATES"
  by (auto simp: LAYOUTS_def TEMPLATES_def)

lemma ask_variant_ok:
  "undecided st \<Longrightarrow> outcome_ok red undecided (ask_variant red u st)"
  unfolding ask_variant_def
  by (auto simp: inv_defs Let_def split: reply.splits option.splits answer.splits
      dest!: selected_in dest: variants_in_TEMPLATES)

lemma prompts_ok:
  "outcome_ok red undecided (prompts lc red fs cwd arg argTemplate u)"
  unfolding prompts_def
  by (intro outcome_ok_and_then [where P = undecided and Q = undecided]
        outcome_ok_and_then [where P = before_check and Q = undecided]
        outcome_ok_and_then [where P = undecided and Q = before_check]
        ask_projectName_ok ask_overwrite_ok overwriteChecker_ok ask_packageName_ok
        ask_framework_ok ask_variant_ok)
     (simp_all add: undecided_def no_abort_def declined_def choices_ok_def)

text \<open>
  Claim C1. If, in the run of the questions, the user answers no to the confirmation or
  aborts a prompt, then \<^verbatim>\<open>init\<close> returns with the cancellation message as the only line
  printed: the file system is as before, nothing is written to the error stream, and
  neither \<^verbatim>\<open>emptyDir\<close> nor \<^verbatim>\<open>mkdirSync\<close> nor the scaffolding is called.
\<close>

theorem cancellation_leaves_no_trace:
  assumes "(Overwrite, Answered (Confirmed False)) \<in>
             set (interaction lc red (w_fs w) cwd (formatTargetDir argv0) argTemplate u) \<or>
           (\<exists>q. (q, Aborted) \<in>
             set (interaction lc red (w_fs w) cwd (formatTargetDir argv0) argTemplate u))"
  shows "init lc red scaffold cwd argv0 argTemplate u w =
           w\<lparr>w_stdout := w_stdout w @ [Message (red [10006] @ js '' Operation cancelled!'')]\<rparr> \<and>
         w_fs (init lc red scaffold cwd argv0 argTemplate u w) = w_fs w \<and>
         w_calls (init lc red scaffold cwd argv0 argTemplate u w) = w_calls w"
proof (cases "prompts lc red (w_fs w) cwd (formatTargetDir argv0) argTemplate u")
  case (Inl a)
  obtain e sh where a: "a = (e, sh)" by (cases a)
  have "interaction lc red (w_fs w) cwd (formatTargetDir argv0) argTemplate u = sh"
    by (simp add: interaction_def Inl a)
  with assms have "declined sh \<or> \<not> no_abort sh" by (auto simp: declined_def no_abort_def)
  moreover have "outcome_ok red undecided (Inl (e, sh))"
    using prompts_ok [of red lc "w_fs w" cwd "formatTargetDir argv0" argTemplate u] Inl a by simp
  ultimately have "e = cancelled red" by (auto simp: outcome_ok_def)
  then show ?thesis by (simp add: init_def Inl a cancelled_def)
next
  case (Inr st)
  have "interaction lc red (w_fs w) cwd (formatTargetDir argv0) argTemplate u = shown st"
    by (simp add: interaction_def Inr)
  with assms have "declined (shown st) \<or> \<not> no_abort (shown st)"
    by (auto simp: declined_def no_abort_def)
  moreover have "undecided st"
    using prompts_ok [of red lc "w_fs w" cwd "formatTargetDir argv0" argTemplate u] Inr
    by (simp add: outcome_ok_def)
  ultimately show ?thesis by (simp add: undecided_def)
qed

text \<open>
  The theorem at a run in \<^verbatim>\<open>/home\<close> with the arguments \<^verbatim>\<open>demo --template html-css\<close>, where
  \<^verbatim>\<open>demo\<close> holds a file and the user answers no, and at a run without arguments where the
  user aborts the first prompt. The scaffolding here would empty the file system.
\<close>

theorem cancellation_leaves_no_trace_witness:
  "interaction ascii_toLowerCase (\<lambda>s. s)
     (Dir [(js ''home'', Dir [(js ''demo'', Dir [(js ''README'', File (js ''x''))])])])
     [js ''home''] (formatTargetDir (Some (js ''demo''))) (Str (js ''html-css'') :: unit argval)
     \<lparr>reply_projectName = Aborted, reply_overwrite = Answered False, reply_packageName = [],
      reply_framework = Aborted, reply_variant = Aborted\<rparr> =
     [(Overwrite, Answered (Confirmed False))] \<and>
   init ascii_toLowerCase (\<lambda>s. s) (\<lambda>root t n w. (None, w\<lparr>w_fs := Dir []\<rparr>))
     [js ''home''] (Some (js ''demo'')) (Str (js ''html-css'') :: unit argval)
     \<lparr>reply_projectName = Aborted, reply_overwrite = Answered False, reply_packageName = [],
      reply_framework = Aborted, reply_variant = Aborted\<rparr>
     \<lparr>w_fs = Dir [(js ''home'', Dir [(js ''demo'', Dir [(js ''README'', File (js ''x''))])])],
      w_stdout = [], w_stderr = [], w_calls = []\<rparr> =
     \<lparr>w_fs = Dir [(js ''home'', Dir [(js ''demo'', Dir [(js ''README'', File (js ''x''))])])],
      w_stdout = [Message (10006 # js '' Operation cancelled!'')], w_stderr = [], w_calls = []\<rparr> \<and>
   interaction ascii_toLowerCase (\<lambda>s. s) (Dir []) [] (formatTargetDir None)
     (NotString () :: unit argval)
     \<lparr>reply_projectName = Aborted, reply_overwrite = Answered True, reply_packageName = [],
      reply_framework = Answered 0, reply_variant = Answered 0\<rparr> =
     [(ProjectName, Aborted)] \<and>
   init ascii_toLowerCase (\<lambda>s. s) (\<lambda>root t n w. (None, w\<lparr>w_fs := Dir []\<rparr>))
     [] None (NotString () :: unit argval)
     \<lparr>reply_projectName = Aborted, reply_overwrite = Answered True, reply_packageName = [],
      reply_framework = Answered 0, reply_variant = Answered 0\<rparr>
     \<lparr>w_fs = Dir [], w_stdout = [], w_stderr = [], w_calls = []\<rparr> =
     \<lparr>w_fs = Dir [], w_stdout = [Message (10006 # js '' Operation cancelled!'')],
      w_stderr = [], w_calls = []\<rparr>"
proof -
  let ?fs = "Dir [(js ''home'', Dir [(js ''demo'', Dir [(js ''README'', File (js ''x''))])])]"
  let ?u = "\<lparr>reply_projectName = Aborted, reply_overwrite = Answered False,
      reply_packageName = [], reply_framework = Aborted, reply_variant = Aborted\<rparr>"
  let ?w = "\<lparr>w_fs = ?fs, w_stdout = [], w_stderr = [], w_calls = []\<rparr>"
  let ?v = "\<lparr>reply_projectName = Aborted, reply_overwrite = Answered True,
      reply_packageName = [], reply_framework = Answered 0, reply_variant = Answered 0\<rparr>"
  let ?e = "\<lparr>w_fs = Dir [], w_stdout = [], w_stderr = [], w_calls = []\<rparr>"
  have i1: "interaction ascii_toLowerCase (\<lambda>s. s) ?fs [js ''home'']
      (formatTargetDir (Some (js ''demo''))) (Str (js ''html-css'') :: unit argval) ?u =
      [(Overwrite, Answered (Confirmed False))]"
    by (simp add: interaction_def prompts_def and_then_def ask_projectName_def ask_overwrite_def
        overwriteChecker_def cancelled_def
        show_prompt_def or_default_def reach_def existsSync_def isEmpty_def
        readdirSync_def eval_defs)
  have i2: "interaction ascii_toLowerCase (\<lambda>s. s) (Dir []) [] (formatTargetDir None)
      (NotString () :: unit argval) ?v = [(ProjectName, Aborted)]"
    by (simp add: interaction_def prompts_def and_then_def ask_projectName_def show_prompt_def
        formatTargetDir_def)
  from cancellation_leaves_no_trace
    [of ascii_toLowerCase "\<lambda>s. s" ?w "[js ''home'']" "Some (js ''demo'')"
        "Str (js ''html-css'') :: unit argval" ?u "\<lambda>root t n w. (None, w\<lparr>w_fs := Dir []\<rparr>)"]
    cancellation_leaves_no_trace
    [of ascii_toLowerCase "\<lambda>s. s" ?e "[]" None "NotString () :: unit argval" ?v
        "\<lambda>root t n w. (None, w\<lparr>w_fs := Dir []\<rparr>)"]
    i1 i2
  show ?thesis by simp
qed

lemma TEMPLATES_nonempty: "v \<in> set TEMPLATES \<Longrightarrow> v \<noteq> []"
  by (auto simp: TEMPLATES_def LAYOUTS_def js_def)

lemma LAYOUTS_named: "f \<in> set LAYOUTS \<Longrightarrow> name f \<noteq> []"
  by (auto simp: LAYOUTS_def js_def)

text \<open>
  Claim C3. When the questions have been answered, the template is the variant chosen if
  there is one, else the name of the layout chosen if there is one, else the template
  argument of the command line as it was given.
\<close>

theorem template_priority:
  assumes "prompts lc red fs cwd arg argTemplate u = Inr st"
  shows "resolve_template (a_variant (cur_answers st)) (a_framework (cur_answers st)) argTemplate =
     (case a_variant (cur_answers st) of
        Some v \<Rightarrow> Str v
      | None \<Rightarrow>
          (case a_framework (cur_answers st) of
             Some f \<Rightarrow> Str (name f)
           | None \<Rightarrow> argTemplate))"
proof -
  have "choices_ok st"
    using prompts_ok [of red lc fs cwd arg argTemplate u] assms
    by (simp add: outcome_ok_def undecided_def)
  then show ?thesis
    by (auto simp: resolve_template_def choices_ok_def split: option.splits
        dest: TEMPLATES_nonempty LAYOUTS_named)
qed

text \<open>
  The theorem at a run in an empty \<^verbatim>\<open>/home\<close> with the argument \<^verbatim>\<open>demo\<close> only, where the user
  picks the second layout and its second variant: the template is \<^verbatim>\<open>html-css\<close>.
\<close>

theorem template_priority_witness:
  "(\<exists>st. prompts ascii_toLowerCase (\<lambda>s. s) (Dir [(js ''home'', Dir [])]) [js ''home'']
       (Some (js ''demo'')) (NotString () :: unit argval)
       \<lparr>reply_projectName = Aborted, reply_overwrite = Aborted, reply_packageName = [],
        reply_framework = Answered 1, reply_variant = Answered 1\<rparr> = Inr st \<and>
     a_variant (cur_answers st) = Some (js ''html-css'') \<and>
     resolve_template (a_variant (cur_answers st)) (a_framework (cur_answers st))
       (NotString () :: unit argval) = Str (js ''html-css''))"
proof -
  let ?u = "\<lparr>reply_projectName = Aborted, reply_overwrite = Aborted, reply_packageName = [],
        reply_framework = Answered 1, reply_variant = Answered 1\<rparr>"
  let ?p = "prompts ascii_toLowerCase (\<lambda>s. s) (Dir [(js ''home'', Dir [])]) [js ''home'']
       (Some (js ''demo'')) (NotString () :: unit argval) ?u"
  have "\<exists>st. ?p = Inr st \<and> a_variant (cur_answers st) = Some (js ''html-css'')"
    by (simp add: prompts_def and_then_def ask_projectName_def ask_overwrite_def
        overwriteChecker_def ask_packageName_def ask_framework_def ask_variant_def
        known_template_def selected_def getProjectName_def LAYOUTS_def
        show_prompt_def or_default_def reach_def existsSync_def eval_defs)
  then obtain st where st: "?p = Inr st" "a_variant (cur_answers st) = Some (js ''html-css'')"
    by blast
  from template_priority [OF st(1)] st show ?thesis by simp
qed

text \<open>
  For comparison, the same run with the answer yes: \<^verbatim>\<open>demo\<close> is emptied and the scaffolding
  is called with the root \<^verbatim>\<open>/home/demo\<close>, the template \<^verbatim>\<open>html-css\<close> and the name \<^verbatim>\<open>demo\<close>.
\<close>

lemma init_overwrite_confirmed:
  "init ascii_toLowerCase (\<lambda>s. s)
     (\<lambda>root t n w. (None, w\<lparr>w_stdout := w_stdout w @ [Message n]\<rparr>))
     [js ''home''] (Some (js ''demo'')) (Str (js ''html-css'') :: unit argval)
     \<lparr>reply_projectName = Aborted, reply_overwrite = Answered True, reply_packageName = [],
      reply_framework = Aborted, reply_variant = Aborted\<rparr>
     \<lparr>w_fs = Dir [(js ''home'', Dir [(js ''demo'', Dir [(js ''README'', File (js ''x''))])])],
      w_stdout = [], w_stderr = [], w_calls = []\<rparr> =
     \<lparr>w_fs = Dir [(js ''home'', Dir [(js ''demo'', Dir [])])],
      w_stdout = [Message (js ''demo'')], w_stderr = [],
      w_calls = [EmptyDirCall [js ''home'', js ''demo''],
                 ScaffoldCall [js ''home'', js ''demo'']]\<rparr>"
  by (simp add: init_def prompts_def and_then_def ask_projectName_def ask_overwrite_def
      overwriteChecker_def ask_packageName_def ask_framework_def ask_variant_def
      known_template_def TEMPLATES_def LAYOUTS_def getProjectName_def effective_name_def
      resolve_template_def prepare_root_def emptyDir_def rmSync_def path_join_def
      show_prompt_def or_default_def reach_def existsSync_def isEmpty_def
      readdirSync_def Let_def eval_defs)

text \<open>
  A path string is followed as the system follows it: \<^verbatim>\<open>nope/../demo\<close> reaches nothing when
  \<^verbatim>\<open>nope\<close> is missing, although \<^verbatim>\<open>demo\<close> exists, and \<^verbatim>\<open>path.join\<close> gives \<^verbatim>\<open>/home/demo\<close> for it.
\<close>

lemma reach_is_not_lexical:
  "reach (Dir [(js ''home'', Dir [(js ''demo'', Dir [])])]) [js ''home''] (js ''nope/../demo'') =
     Inl ENOENT \<and>
   reach (Dir [(js ''home'', Dir [(js ''demo'', Dir [])])]) [js ''home''] (js ''./demo'') =
     Inr [js ''home'', js ''demo''] \<and>
   path_join [js ''home''] (js ''nope/../demo'') = [js ''home'', js ''demo'']"
  by (simp add: reach_def path_join_def js_def)

text \<open>
  When the target exists and is a file, \<^verbatim>\<open>isEmpty\<close> throws in the run of the questions and
  the same handler prints the message of that error; nothing else happens.
\<close>

lemma init_target_is_a_file:
  "init ascii_toLowerCase (\<lambda>s. s) (\<lambda>root t n w. (None, w\<lparr>w_fs := Dir []\<rparr>))
     [js ''home''] (Some (js ''demo'')) (Str (js ''html-css'') :: unit argval)
     \<lparr>reply_projectName = Aborted, reply_overwrite = Answered True, reply_packageName = [],
      reply_framework = Aborted, reply_variant = Aborted\<rparr>
     \<lparr>w_fs = Dir [(js ''home'', Dir [(js ''demo'', File (js ''x''))])],
      w_stdout = [], w_stderr = [], w_calls = []\<rparr> =
     \<lparr>w_fs = Dir [(js ''home'', Dir [(js ''demo'', File (js ''x''))])],
      w_stdout = [SystemMessage ENOTDIR], w_stderr = [], w_calls = []\<rparr>"
  by (simp add: init_def prompts_def and_then_def ask_projectName_def ask_overwrite_def
      or_default_def reach_def existsSync_def isEmpty_def readdirSync_def Let_def
      eval_defs)

end
